theory Spec2Isabelle
  imports Complex_Main "HOL-Library.AList"
begin

section \<open>Scope\<close>

text \<open>
  This theory embeds the request pipeline of the interceptor (src/interceptor.js):
  \<^verbatim>\<open>compressText\<close>, \<^verbatim>\<open>processPayload\<close>, \<^verbatim>\<open>forwardToAnthropic\<close> and
  \<^verbatim>\<open>handleRequest\<close>.  Each asynchronous function is modelled from its call to the
  settling of its promise, and a promise that never settles is a value of the model; the
  \<^verbatim>\<open>await\<close>s of the source make the calls of one request strictly sequential.  What the
  outside world does (the compression service, the upstream, the JavaScript runtime) is a
  parameter of the functions.  Logging (\<^verbatim>\<open>log\<close>, \<^verbatim>\<open>logStats\<close>) has no effect on any
  value the pipeline computes and is left out, as are \<^verbatim>\<open>startServer\<close> and the parsing of
  the environment into \<^verbatim>\<open>config\<close>.
\<close>

section \<open>JavaScript values\<close>

text \<open>
  A JavaScript number is an IEEE double: not-a-number, a finite value, or an infinity.
  A finite double is the rational it denotes; the two zeros are one value here (the
  program cannot tell them apart: \<^verbatim>\<open><\<close>, \<^verbatim>\<open>-\<close>, \<^verbatim>\<open>+\<close> and truthiness do not, and both
  are written \<^verbatim>\<open>0\<close>).
\<close>

datatype number = NaN | Fin rat | PInf | NInf

text \<open>
  The interceptor works on what \<^verbatim>\<open>JSON.parse\<close> returns.  A decoded value is a tree
  without sharing, so the in-place assignments of the source (\<^verbatim>\<open>msg.content = ...\<close>,
  \<^verbatim>\<open>block.text = ...\<close>) are functional updates here.

  \<^item> A string inside a JSON value is a list of UTF-16 code units; the model writes one
    \<open>char\<close> per code unit, so it covers the strings whose code units are below 256, and
    \<open>length\<close> is the \<^verbatim>\<open>.length\<close> of the source.
  \<^item> An object is the list of its own properties in insertion order; \<open>AList.update\<close>
    overwrites a property in place, as an assignment does.
\<close>

datatype json =
    JNull
  | JBool bool
  | JNum number
  | JStr string
  | JArr "json list"
  | JObj "(string \<times> json) list"

text \<open>\<^verbatim>\<open>!!v\<close>: the falsy values are null, false, 0, NaN and the empty string.\<close>

fun num_truthy :: "number \<Rightarrow> bool" where
  "num_truthy NaN = False"
| "num_truthy (Fin r) = (r \<noteq> 0)"
| "num_truthy PInf = True"
| "num_truthy NInf = True"

fun truthy :: "json \<Rightarrow> bool" where
  "truthy JNull = False"
| "truthy (JBool b) = b"
| "truthy (JNum n) = num_truthy n"
| "truthy (JStr s) = (s \<noteq> [])"
| "truthy (JArr xs) = True"
| "truthy (JObj kvs) = True"

text \<open>
  \<^verbatim>\<open>v.k\<close> on a value that is not null, for the property names the program reads
  (messages, role, content, type, text, length, output, output_tokens,
  original_input_tokens).  \<open>None\<close> is \<^verbatim>\<open>undefined\<close>.  Reading a property of null throws;
  every caller tests for null first and takes the throwing branch itself.
\<close>

fun js_get :: "json \<Rightarrow> string \<Rightarrow> json option" where
  "js_get (JObj kvs) k = map_of kvs k"
| "js_get (JStr s) k = (if k = ''length'' then Some (JNum (Fin (of_nat (length s)))) else None)"
| "js_get (JArr xs) k = (if k = ''length'' then Some (JNum (Fin (of_nat (length xs)))) else None)"
| "js_get v k = None"

text \<open>
  \<^verbatim>\<open>v.k = x\<close>.  On an object the property is overwritten where it stands (or added
  last).  On any other value the assignment leaves the JSON value as it is (the program
  only assigns to values it has just read \<^verbatim>\<open>role\<close> or \<^verbatim>\<open>type\<close> from, which are
  objects).
\<close>

fun js_set :: "json \<Rightarrow> string \<Rightarrow> json \<Rightarrow> json" where
  "js_set (JObj kvs) k x = JObj (AList.update k x kvs)"
| "js_set v k x = v"

subsection \<open>The runtime\<close>

text \<open>
  A request body, and what \<^verbatim>\<open>JSON.stringify\<close> returns, is a JavaScript string with any
  code units: a list of numbers below 65536.  What arrives from the network and what
  leaves to it is a list of bytes.
\<close>

type_synonym ustring = "nat list"

type_synonym bytes = "nat list"

text \<open>The primitive values: what ToPrimitive returns.\<close>

datatype prim = PUndefined | PNull | PBool bool | PNum number | PStr string

text \<open>
  What belongs to the JavaScript runtime and not to this repository is a parameter:
  \<^item> \<^verbatim>\<open>JSON.parse\<close> (\<open>None\<close> where it throws) and \<^verbatim>\<open>JSON.stringify\<close>, which does not
    throw on a value made of parsed JSON;
  \<^item> \<^verbatim>\<open>Buffer.toString("utf-8")\<close> and the UTF-8 encoding of a string that is written to
    a connection;
  \<^item> ToPrimitive of an array or an object (\<open>None\<close> where it throws), StringToNumber, and
    the string of a number;
  \<^item> the rounding of an exact sum or difference to a double: IEEE addition and
    subtraction of two finite doubles return the rounded exact result.
\<close>

record runtime =
  json_parse :: "ustring \<Rightarrow> json option"
  json_stringify :: "json \<Rightarrow> ustring"
  utf8_decode :: "bytes \<Rightarrow> ustring"
  utf8_encode :: "ustring \<Rightarrow> bytes"
  to_primitive :: "json \<Rightarrow> prim option"
  string_to_number :: "string \<Rightarrow> number"
  number_to_string :: "number \<Rightarrow> string"
  rounded :: "rat \<Rightarrow> number"

text \<open>ToPrimitive of what a property read returned.\<close>

fun primitive :: "runtime \<Rightarrow> json option \<Rightarrow> prim option" where
  "primitive rt None = Some PUndefined"
| "primitive rt (Some JNull) = Some PNull"
| "primitive rt (Some (JBool b)) = Some (PBool b)"
| "primitive rt (Some (JNum n)) = Some (PNum n)"
| "primitive rt (Some (JStr s)) = Some (PStr s)"
| "primitive rt (Some v) = to_primitive rt v"

text \<open>ToNumber and ToString of a primitive.\<close>

fun to_number :: "runtime \<Rightarrow> prim \<Rightarrow> number" where
  "to_number rt PUndefined = NaN"
| "to_number rt PNull = Fin 0"
| "to_number rt (PBool b) = Fin (if b then 1 else 0)"
| "to_number rt (PNum n) = n"
| "to_number rt (PStr s) = string_to_number rt s"

fun to_string :: "runtime \<Rightarrow> prim \<Rightarrow> string" where
  "to_string rt PUndefined = ''undefined''"
| "to_string rt PNull = ''null''"
| "to_string rt (PBool b) = (if b then ''true'' else ''false'')"
| "to_string rt (PNum n) = number_to_string rt n"
| "to_string rt (PStr s) = s"

text \<open>\<^verbatim>\<open>a < b\<close> on numbers is exact, and false as soon as one side is NaN.\<close>

fun num_less :: "number \<Rightarrow> number \<Rightarrow> bool" where
  "num_less (Fin a) (Fin b) = (a < b)"
| "num_less (Fin a) PInf = True"
| "num_less NInf (Fin b) = True"
| "num_less NInf PInf = True"
| "num_less a b = False"

text \<open>\<^verbatim>\<open>a < b\<close> on strings compares code units, the first difference deciding.\<close>

fun str_less :: "string \<Rightarrow> string \<Rightarrow> bool" where
  "str_less [] [] = False"
| "str_less [] (y # ys) = True"
| "str_less (x # xs) [] = False"
| "str_less (x # xs) (y # ys) =
    ((of_char x :: nat) < of_char y \<or> (x = y \<and> str_less xs ys))"

text \<open>
  \<^verbatim>\<open>a + b\<close> and \<^verbatim>\<open>a - b\<close> on numbers: the rounded exact result on finite numbers, and
  the IEEE rules on the others.
\<close>

fun num_add :: "runtime \<Rightarrow> number \<Rightarrow> number \<Rightarrow> number" where
  "num_add rt (Fin a) (Fin b) = rounded rt (a + b)"
| "num_add rt NaN b = NaN"
| "num_add rt a NaN = NaN"
| "num_add rt PInf NInf = NaN"
| "num_add rt NInf PInf = NaN"
| "num_add rt PInf b = PInf"
| "num_add rt NInf b = NInf"
| "num_add rt a PInf = PInf"
| "num_add rt a NInf = NInf"

fun num_neg :: "number \<Rightarrow> number" where
  "num_neg NaN = NaN"
| "num_neg (Fin a) = Fin (- a)"
| "num_neg PInf = NInf"
| "num_neg NInf = PInf"

fun num_sub :: "runtime \<Rightarrow> number \<Rightarrow> number \<Rightarrow> number" where
  "num_sub rt (Fin a) (Fin b) = rounded rt (a - b)"
| "num_sub rt a b = num_add rt a (num_neg b)"

text \<open>
  The operators on values.  \<^verbatim>\<open>a < b\<close> takes the primitives of both sides, compares two
  strings as strings and anything else as numbers; \<^verbatim>\<open>a - b\<close> subtracts the numbers of the
  primitives; \<^verbatim>\<open>a + b\<close> on primitives concatenates as soon as one side is a string and
  adds the numbers otherwise.  \<open>Raised\<close> and \<open>None\<close>: ToPrimitive threw.
\<close>

datatype verdict = Yes | No | Raised

fun prim_less :: "runtime \<Rightarrow> prim \<Rightarrow> prim \<Rightarrow> bool" where
  "prim_less rt (PStr s) (PStr t) = str_less s t"
| "prim_less rt p q = num_less (to_number rt p) (to_number rt q)"

definition js_less :: "runtime \<Rightarrow> json option \<Rightarrow> json option \<Rightarrow> verdict" where
  "js_less rt a b =
    (case primitive rt a of
       None \<Rightarrow> Raised
     | Some p \<Rightarrow>
         (case primitive rt b of
            None \<Rightarrow> Raised
          | Some q \<Rightarrow> if prim_less rt p q then Yes else No))"

definition js_minus :: "runtime \<Rightarrow> json option \<Rightarrow> json option \<Rightarrow> number option" where
  "js_minus rt a b =
    (case primitive rt a of
       None \<Rightarrow> None
     | Some p \<Rightarrow>
         (case primitive rt b of
            None \<Rightarrow> None
          | Some q \<Rightarrow> Some (num_sub rt (to_number rt p) (to_number rt q))))"

fun is_string :: "prim \<Rightarrow> bool" where
  "is_string (PStr s) = True"
| "is_string p = False"

definition prim_plus :: "runtime \<Rightarrow> prim \<Rightarrow> prim \<Rightarrow> prim" where
  "prim_plus rt p q =
    (if is_string p \<or> is_string q then PStr (to_string rt p @ to_string rt q)
     else PNum (num_add rt (to_number rt p) (to_number rt q)))"

section \<open>Configuration\<close>

text \<open>
  The fields of \<^verbatim>\<open>config\<close> that the pipeline reads.  \<open>ttcKey\<close> is \<open>None\<close> when the
  environment variable is not set.  \<open>minTextLength\<close> is the integer \<^verbatim>\<open>parseInt\<close> made of
  the environment (default 150).
\<close>

record config =
  ttcKey :: "string option"
  minTextLength :: int
  anthropicHost :: string

text \<open>\<^verbatim>\<open>!config.ttcKey\<close>\<close>

definition key_missing :: "config \<Rightarrow> bool" where
  "key_missing cfg = (case ttcKey cfg of None \<Rightarrow> True | Some k \<Rightarrow> k = [])"

text \<open>\<^verbatim>\<open>config.minTextLength\<close> as an operand.\<close>

definition min_length :: "config \<Rightarrow> json option" where
  "min_length cfg = Some (JNum (Fin (of_int (minTextLength cfg))))"

text \<open>\<^verbatim>\<open>t.length\<close> as an operand, for a truthy \<open>t\<close>.\<close>

definition text_length :: "json \<Rightarrow> json option" where
  "text_length t = js_get t ''length''"

section \<open>The compression client\<close>

text \<open>
  What the compression service does is the environment's choice.  The promise of
  \<^verbatim>\<open>compressText\<close> is resolved in three places only: the \<^verbatim>\<open>timeout\<close> and \<^verbatim>\<open>error\<close>
  listeners of the request, and the \<^verbatim>\<open>end\<close> listener of the response.  So one call ends
  in one of four ways: \<^verbatim>\<open>timeout\<close>; \<^verbatim>\<open>error\<close>; the response is cut after its headers, which
  runs none of the three listeners; or the response ends, with the text of its body.

  The environment is a function of the number of calls made before and of the text sent;
  the list of texts sent so far is the state.
\<close>

datatype api_outcome = Timeout | TransportError | Cut | Ended ustring

type_synonym service = "nat \<Rightarrow> json \<Rightarrow> api_outcome"

text \<open>\<^verbatim>\<open>{ text, saved, original }\<close>: \<open>saved\<close> is the number a subtraction returned (or
  0), \<open>original\<close> is what reading the reply's field returned (or 0).\<close>

record cresult =
  ctext :: json
  saved :: number
  original :: "json option"

text \<open>\<^verbatim>\<open>{ text, saved: 0, original: 0 }\<close>\<close>

definition fallback :: "json \<Rightarrow> cresult" where
  "fallback t = \<lparr>ctext = t, saved = Fin 0, original = Some (JNum (Fin 0))\<rparr>"

text \<open>
  The \<^verbatim>\<open>end\<close> listener.  Its \<^verbatim>\<open>catch\<close> takes what \<^verbatim>\<open>JSON.parse\<close> throws, the
  \<^verbatim>\<open>json.output\<close> of null, and a comparison that throws.
\<close>

definition on_end :: "runtime \<Rightarrow> json \<Rightarrow> ustring \<Rightarrow> cresult" where
  "on_end rt t data =
    (case json_parse rt data of
       None \<Rightarrow> fallback t
     | Some j \<Rightarrow>
         if j = JNull then fallback t
         else
           (case js_get j ''output'' of
              None \<Rightarrow> fallback t
            | Some out \<Rightarrow>
                if truthy out then
                  (case js_less rt (js_get j ''output_tokens'')
                          (js_get j ''original_input_tokens'') of
                     Raised \<Rightarrow> fallback t
                   | No \<Rightarrow> fallback t
                   | Yes \<Rightarrow>
                       (case js_minus rt (js_get j ''original_input_tokens'')
                               (js_get j ''output_tokens'') of
                          None \<Rightarrow> fallback t
                        | Some sv \<Rightarrow>
                            \<lparr>ctext = out, saved = sv,
                             original = js_get j ''original_input_tokens''\<rparr>))
                else fallback t))"

text \<open>How the promise settles: thrown out of, never, or resolved with a result.\<close>

datatype answer = Rejects | Unsettled | Resolves cresult

fun settle :: "runtime \<Rightarrow> json \<Rightarrow> api_outcome \<Rightarrow> answer" where
  "settle rt t Timeout = Resolves (fallback t)"
| "settle rt t TransportError = Resolves (fallback t)"
| "settle rt t Cut = Unsettled"
| "settle rt t (Ended data) = Resolves (on_end rt t data)"

text \<open>
  \<^verbatim>\<open>compressText(text)\<close>, paired with the texts sent to the service.  The function throws
  only where the comparison \<^verbatim>\<open>text.length < minTextLength\<close> throws, which no string
  makes it do.
\<close>

definition compressText ::
  "runtime \<Rightarrow> config \<Rightarrow> service \<Rightarrow> json list \<Rightarrow> json \<Rightarrow> answer \<times> json list" where
  "compressText rt cfg net sent t =
    (if key_missing cfg \<or> \<not> truthy t then (Resolves (fallback t), sent)
     else
       (case js_less rt (text_length t) (min_length cfg) of
          Raised \<Rightarrow> (Rejects, sent)
        | Yes \<Rightarrow> (Resolves (fallback t), sent)
        | No \<Rightarrow> (settle rt t (net (length sent) t), sent @ [t])))"

section \<open>The payload transformer\<close>

text \<open>
  A step of the walk throws (the \<^verbatim>\<open>catch\<close> of \<^verbatim>\<open>processPayload\<close> takes over), or waits
  for ever on a call that never settles, or is done with a new value, the two running
  totals and the texts sent.  \<^verbatim>\<open>totalSaved\<close> is a number; \<^verbatim>\<open>totalOriginal\<close> is a number or,
  once a string was added to it, a string.
\<close>

datatype 'a step =
    Throws "json list"
  | Hangs "json list"
  | Done 'a number prim "json list"

text \<open>
  The three statements after an \<^verbatim>\<open>await compressText(...)\<close> that resolved: the
  assignment, \<^verbatim>\<open>totalSaved += result.saved\<close> and \<^verbatim>\<open>totalOriginal += result.original\<close>.
\<close>

definition take_result ::
  "runtime \<Rightarrow> json \<Rightarrow> string \<Rightarrow> cresult \<Rightarrow> number \<Rightarrow> prim \<Rightarrow> json list \<Rightarrow> json step" where
  "take_result rt target k r s og sent =
    (case primitive rt (original r) of
       None \<Rightarrow> Throws sent
     | Some q \<Rightarrow>
         Done (js_set target k (ctext r)) (num_add rt s (saved r)) (prim_plus rt og q) sent)"

text \<open>\<^verbatim>\<open>await compressText(t)\<close> followed by these statements.\<close>

definition compress_into ::
  "runtime \<Rightarrow> config \<Rightarrow> service \<Rightarrow> json \<Rightarrow> string \<Rightarrow> json \<Rightarrow> number \<Rightarrow> prim \<Rightarrow> json list
    \<Rightarrow> json step" where
  "compress_into rt cfg net target k t s og sent =
    (case compressText rt cfg net sent t of
       (Rejects, sent') \<Rightarrow> Throws sent'
     | (Unsettled, sent') \<Rightarrow> Hangs sent'
     | (Resolves r, sent') \<Rightarrow> take_result rt target k r s og sent')"

text \<open>The body of the inner loop: one content block.\<close>

definition process_block ::
  "runtime \<Rightarrow> config \<Rightarrow> service \<Rightarrow> json \<Rightarrow> number \<Rightarrow> prim \<Rightarrow> json list \<Rightarrow> json step" where
  "process_block rt cfg net block s og sent =
    (if block = JNull then Throws sent
     else if js_get block ''type'' = Some (JStr ''text'') then
       (case js_get block ''text'' of
          None \<Rightarrow> Done block s og sent
        | Some t \<Rightarrow>
            if truthy t then
              (case js_less rt (min_length cfg) (text_length t) of
                 Raised \<Rightarrow> Throws sent
               | No \<Rightarrow> Done block s og sent
               | Yes \<Rightarrow> compress_into rt cfg net block ''text'' t s og sent)
            else Done block s og sent)
     else Done block s og sent)"

fun process_blocks ::
  "runtime \<Rightarrow> config \<Rightarrow> service \<Rightarrow> json list \<Rightarrow> number \<Rightarrow> prim \<Rightarrow> json list
    \<Rightarrow> json list step" where
  "process_blocks rt cfg net [] s og sent = Done [] s og sent"
| "process_blocks rt cfg net (b # bs) s og sent =
    (case process_block rt cfg net b s og sent of
       Throws sent' \<Rightarrow> Throws sent'
     | Hangs sent' \<Rightarrow> Hangs sent'
     | Done b' s' og' sent' \<Rightarrow>
         (case process_blocks rt cfg net bs s' og' sent' of
            Throws sent'' \<Rightarrow> Throws sent''
          | Hangs sent'' \<Rightarrow> Hangs sent''
          | Done bs' s'' og'' sent'' \<Rightarrow> Done (b' # bs') s'' og'' sent''))"

text \<open>\<^verbatim>\<open>["user", "assistant"].includes(msg.role)\<close>\<close>

definition recognised :: "json \<Rightarrow> bool" where
  "recognised msg =
    (js_get msg ''role'' = Some (JStr ''user'') \<or> js_get msg ''role'' = Some (JStr ''assistant''))"

text \<open>The body of the outer loop: one message.\<close>

definition process_message ::
  "runtime \<Rightarrow> config \<Rightarrow> service \<Rightarrow> json \<Rightarrow> number \<Rightarrow> prim \<Rightarrow> json list \<Rightarrow> json step" where
  "process_message rt cfg net msg s og sent =
    (if msg = JNull then Throws sent
     else if recognised msg then
       (case js_get msg ''content'' of
          Some (JStr c) \<Rightarrow>
            if minTextLength cfg < int (length c) then
              compress_into rt cfg net msg ''content'' (JStr c) s og sent
            else Done msg s og sent
        | Some (JArr bs) \<Rightarrow>
            (case process_blocks rt cfg net bs s og sent of
               Throws sent' \<Rightarrow> Throws sent'
             | Hangs sent' \<Rightarrow> Hangs sent'
             | Done bs' s' og' sent' \<Rightarrow> Done (js_set msg ''content'' (JArr bs')) s' og' sent')
        | _ \<Rightarrow> Done msg s og sent)
     else Done msg s og sent)"

fun process_messages ::
  "runtime \<Rightarrow> config \<Rightarrow> service \<Rightarrow> json list \<Rightarrow> number \<Rightarrow> prim \<Rightarrow> json list
    \<Rightarrow> json list step" where
  "process_messages rt cfg net [] s og sent = Done [] s og sent"
| "process_messages rt cfg net (m # ms) s og sent =
    (case process_message rt cfg net m s og sent of
       Throws sent' \<Rightarrow> Throws sent'
     | Hangs sent' \<Rightarrow> Hangs sent'
     | Done m' s' og' sent' \<Rightarrow>
         (case process_messages rt cfg net ms s' og' sent' of
            Throws sent'' \<Rightarrow> Throws sent''
          | Hangs sent'' \<Rightarrow> Hangs sent''
          | Done ms' s'' og'' sent'' \<Rightarrow> Done (m' # ms') s'' og'' sent''))"

text \<open>
  The \<^verbatim>\<open>try\<close> block of \<^verbatim>\<open>processPayload\<close> on the decoded body.  \<^verbatim>\<open>body.messages\<close> throws
  on null.  A falsy \<^verbatim>\<open>body.messages\<close> is the early return.  \<^verbatim>\<open>for ... of\<close> walks an
  array; it walks a string character by character, and a character has no role; on a
  number, a boolean or an object it throws (not iterable).
\<close>

datatype walked =
    Failed "json list"
  | NoMessages
  | Stuck "json list"
  | Rewritten json number prim "json list"

definition walk_payload :: "runtime \<Rightarrow> config \<Rightarrow> service \<Rightarrow> json list \<Rightarrow> json \<Rightarrow> walked" where
  "walk_payload rt cfg net sent b =
    (if b = JNull then Failed sent
     else
       (case js_get b ''messages'' of
          None \<Rightarrow> NoMessages
        | Some m \<Rightarrow>
            if \<not> truthy m then NoMessages
            else
              (case m of
                 JArr ms \<Rightarrow>
                   (case process_messages rt cfg net ms (Fin 0) (PNum (Fin 0)) sent of
                      Throws sent' \<Rightarrow> Failed sent'
                    | Hangs sent' \<Rightarrow> Stuck sent'
                    | Done ms' s og sent' \<Rightarrow>
                        Rewritten (js_set b ''messages'' (JArr ms')) s og sent')
               | JStr cs \<Rightarrow> Rewritten b (Fin 0) (PNum (Fin 0)) sent
               | _ \<Rightarrow> Failed sent)))"

record payload_result =
  body :: ustring
  totalSaved :: number
  totalOriginal :: prim

text \<open>\<^verbatim>\<open>{ body: bodyStr, totalSaved: 0, totalOriginal: 0 }\<close>\<close>

definition passthrough :: "ustring \<Rightarrow> payload_result" where
  "passthrough bodyStr = \<lparr>body = bodyStr, totalSaved = Fin 0, totalOriginal = PNum (Fin 0)\<rparr>"

text \<open>
  \<^verbatim>\<open>processPayload(bodyStr)\<close>, with the texts sent to the compression service.  \<open>None\<close>:
  the promise never settles.
\<close>

definition processPayload ::
  "runtime \<Rightarrow> config \<Rightarrow> service \<Rightarrow> json list \<Rightarrow> ustring
    \<Rightarrow> payload_result option \<times> json list" where
  "processPayload rt cfg net sent bodyStr =
    (case json_parse rt bodyStr of
       None \<Rightarrow> (Some (passthrough bodyStr), sent)
     | Some b \<Rightarrow>
         (case walk_payload rt cfg net sent b of
            Failed sent' \<Rightarrow> (Some (passthrough bodyStr), sent')
          | NoMessages \<Rightarrow> (Some (passthrough bodyStr), sent)
          | Stuck sent' \<Rightarrow> (None, sent')
          | Rewritten b' s og sent' \<Rightarrow>
              (Some \<lparr>body = json_stringify rt b', totalSaved = s, totalOriginal = og\<rparr>,
               sent')))"

section \<open>The upstream forwarder\<close>

text \<open>
  \<^verbatim>\<open>req.headers\<close> is an object from lower-case header names to values; the forwarder
  copies it, so a finite map is enough.  \<^verbatim>\<open>content-length\<close> is stored as a number.
\<close>

datatype header_value = HStr string | HList "string list" | HNum nat

type_synonym header_map = "string \<Rightarrow> header_value option"

text \<open>
  \<^verbatim>\<open>Buffer.byteLength(body)\<close>: the length of the UTF-8 encoding.  A code unit below 128
  takes one byte, one below 2048 takes two, a high surrogate followed by a low surrogate
  takes four with it, and any other code unit takes three.
\<close>

definition unit_bytes :: "nat \<Rightarrow> nat" where
  "unit_bytes u = (if u < 128 then 1 else if u < 2048 then 2 else 3)"

definition high_surrogate :: "nat \<Rightarrow> bool" where
  "high_surrogate u = (55296 \<le> u \<and> u < 56320)"

definition low_surrogate :: "nat \<Rightarrow> bool" where
  "low_surrogate u = (56320 \<le> u \<and> u < 57344)"

fun byte_length :: "ustring \<Rightarrow> nat" where
  "byte_length [] = 0"
| "byte_length [u] = unit_bytes u"
| "byte_length (u # v # us) =
    (if high_surrogate u \<and> low_surrogate v then 4 + byte_length us
     else unit_bytes u + byte_length (v # us))"

text \<open>\<^verbatim>\<open>if (body)\<close> on a body that is null or a string.\<close>

definition body_present :: "ustring option \<Rightarrow> bool" where
  "body_present b = (case b of None \<Rightarrow> False | Some s \<Rightarrow> s \<noteq> [])"

text \<open>The header object of the outbound request, in the order of the source's statements.\<close>

definition forward_headers :: "config \<Rightarrow> header_map \<Rightarrow> ustring option \<Rightarrow> header_map" where
  "forward_headers cfg hdrs b =
    (let h1 = hdrs(''host'' \<mapsto> HStr (anthropicHost cfg));
         h2 = (case b of
                 None \<Rightarrow> h1
               | Some s \<Rightarrow> if s \<noteq> [] then h1(''content-length'' \<mapsto> HNum (byte_length s)) else h1)
     in h2(''connection'' := None, ''keep-alive'' := None, ''transfer-encoding'' := None))"

text \<open>
  \<^verbatim>\<open>options\<close> and the string written to the outbound request; \<open>written\<close> is \<open>None\<close> when
  nothing is written.
\<close>

record outbound =
  hostname :: string
  port :: nat
  path :: string
  http_method :: string
  out_headers :: header_map
  written :: "ustring option"

text \<open>The bytes of the body on the outbound connection: a string is written in UTF-8.\<close>

definition wire_body :: "runtime \<Rightarrow> outbound \<Rightarrow> bytes option" where
  "wire_body rt ob = map_option (utf8_encode rt) (written ob)"

text \<open>
  The source listens for two events of the outbound request: the response callback, which
  writes the upstream's status and headers to the caller and pipes the body, and
  \<^verbatim>\<open>error\<close>, which writes 502 and a diagnostic.  It attaches nothing to the response, and
  \<^verbatim>\<open>pipe\<close> ends its destination only when its source ends.  So the outbound request goes
  one of three ways: the upstream responds and its body ends; the request fails before a
  response; or the upstream responds and the connection breaks before the body has ended,
  which leaves the caller with the status, the headers and the part of the body that
  arrived, and a response that is never ended.
\<close>

record upstream_response =
  up_status :: nat
  up_headers :: header_map
  up_body :: bytes

datatype upstream = Responds upstream_response | Fails string | Breaks upstream_response

record client_response =
  status :: nat
  headers :: header_map
  content :: bytes
  ended :: bool

text \<open>\<^verbatim>\<open>clientRes.writeHead(502); clientRes.end(JSON.stringify({ error: "Bad Gateway",
  message: e.message }))\<close>\<close>

definition bad_gateway :: "runtime \<Rightarrow> string \<Rightarrow> client_response" where
  "bad_gateway rt msg =
    \<lparr>status = 502, headers = Map.empty,
     content = utf8_encode rt
       (json_stringify rt (JObj [(''error'', JStr ''Bad Gateway''), (''message'', JStr msg)])),
     ended = True\<rparr>"

text \<open>\<^verbatim>\<open>forwardToAnthropic(method, urlPath, headers, body, clientRes)\<close>: what goes upstream
  and what the caller receives.\<close>

definition forwardToAnthropic ::
  "runtime \<Rightarrow> config \<Rightarrow> (outbound \<Rightarrow> upstream) \<Rightarrow> string \<Rightarrow> string \<Rightarrow> header_map \<Rightarrow> ustring option
    \<Rightarrow> outbound \<times> client_response" where
  "forwardToAnthropic rt cfg up m urlPath hdrs b =
    (let options =
          \<lparr>hostname = anthropicHost cfg, port = 443, path = urlPath, http_method = m,
           out_headers = forward_headers cfg hdrs b,
           written = (if body_present b then b else None)\<rparr>
     in (options,
         case up options of
           Responds r \<Rightarrow>
             \<lparr>status = up_status r, headers = up_headers r, content = up_body r, ended = True\<rparr>
         | Fails msg \<Rightarrow> bad_gateway rt msg
         | Breaks r \<Rightarrow>
             \<lparr>status = up_status r, headers = up_headers r, content = up_body r,
              ended = False\<rparr>))"

section \<open>The proxy front end\<close>

text \<open>
  The lifetime counters of \<^verbatim>\<open>stats\<close>.  The two counters that are only incremented are
  natural numbers; \<^verbatim>\<open>tokensSaved\<close> is a number, and \<^verbatim>\<open>originalTokens\<close> a number or a
  string, as the totals added to them.
\<close>

record stats =
  requests :: nat
  compressed :: nat
  tokensSaved :: number
  originalTokens :: prim

text \<open>An inbound request whose body has arrived, as the chunks of bytes it came in.\<close>

record request =
  req_method :: string
  req_url :: string
  req_headers :: header_map
  chunks :: "bytes list"

text \<open>\<^verbatim>\<open>haystack.includes(needle)\<close>\<close>

fun js_includes :: "string \<Rightarrow> string \<Rightarrow> bool" where
  "js_includes [] needle = (needle = [])"
| "js_includes (c # cs) needle = (take (length needle) (c # cs) = needle \<or> js_includes cs needle)"

definition isMessagesEndpoint :: "request \<Rightarrow> bool" where
  "isMessagesEndpoint req = (js_includes (req_url req) ''/messages'' \<and> req_method req = ''POST'')"

text \<open>\<^verbatim>\<open>chunks.length > 0 ? Buffer.concat(chunks).toString("utf-8") : null\<close>\<close>

definition collect :: "runtime \<Rightarrow> request \<Rightarrow> ustring option" where
  "collect rt req =
    (if chunks req \<noteq> [] then Some (utf8_decode rt (concat (chunks req))) else None)"

text \<open>
  What one request leaves behind: the counters, the texts sent to the compression
  service, the request sent upstream and the response the caller receives.  The last two
  are \<open>None\<close> when \<^verbatim>\<open>await processPayload(body)\<close> never returns.
\<close>

record handled =
  new_stats :: stats
  texts_sent :: "json list"
  upstream_request :: "outbound option"
  response :: "client_response option"

text \<open>\<^verbatim>\<open>handleRequest(req, res)\<close> as a function of the counters before.\<close>

definition handleRequest ::
  "runtime \<Rightarrow> config \<Rightarrow> service \<Rightarrow> (outbound \<Rightarrow> upstream) \<Rightarrow> stats \<Rightarrow> request \<Rightarrow> handled" where
  "handleRequest rt cfg net up st req =
    (let st1 = st\<lparr>requests := requests st + 1\<rparr>;
         b = collect rt req
     in if isMessagesEndpoint req \<and> body_present b then
          (case processPayload rt cfg net [] (utf8_decode rt (concat (chunks req))) of
             (None, sent) \<Rightarrow>
               \<lparr>new_stats = st1, texts_sent = sent, upstream_request = None, response = None\<rparr>
           | (Some result, sent) \<Rightarrow>
               (let st2 = st1\<lparr>tokensSaved := num_add rt (tokensSaved st1) (totalSaved result)\<rparr>;
                    st3 = st2\<lparr>originalTokens :=
                            prim_plus rt (originalTokens st2) (totalOriginal result)\<rparr>;
                    st4 = (if num_less (Fin 0) (totalSaved result)
                           then st3\<lparr>compressed := compressed st3 + 1\<rparr> else st3);
                    fw = forwardToAnthropic rt cfg up (req_method req) (req_url req)
                           (req_headers req) (Some (body result))
                in \<lparr>new_stats = st4, texts_sent = sent,
                    upstream_request = Some (fst fw), response = Some (snd fw)\<rparr>))
        else
          (let fw = forwardToAnthropic rt cfg up (req_method req) (req_url req)
                      (req_headers req) b
           in \<lparr>new_stats = st1, texts_sent = [], upstream_request = Some (fst fw),
                response = Some (snd fw)\<rparr>))"

section \<open>Predicates of the statements\<close>

text \<open>The skip conditions of \<^verbatim>\<open>compressText\<close> on a string: no credential, the empty
  text, a text shorter than the threshold.\<close>

definition skipped :: "config \<Rightarrow> string \<Rightarrow> bool" where
  "skipped cfg s = (key_missing cfg \<or> s = [] \<or> int (length s) < minTextLength cfg)"

text \<open>\<^verbatim>\<open>a <= b\<close> on numbers.\<close>

definition num_le :: "number \<Rightarrow> number \<Rightarrow> bool" where
  "num_le a b = (num_less a b \<or> (a = b \<and> a \<noteq> NaN))"

text \<open>\<^verbatim>\<open>r.saved <= r.original\<close> on a result: \<open>saved\<close> is a number, so the comparison is
  one of numbers.\<close>

definition within_original :: "runtime \<Rightarrow> cresult \<Rightarrow> bool" where
  "within_original rt r =
    (case primitive rt (original r) of
       None \<Rightarrow> False
     | Some q \<Rightarrow> num_le (saved r) (to_number rt q))"

text \<open>
  What the statements ask of the runtime's arithmetic.  A rational is a double when
  rounding leaves it as it is.  Rounding is to nearest: the rounding of \<open>r\<close> is finite
  and no double \<open>d\<close> is nearer to \<open>r\<close> than it, whenever some double is at least as large
  as \<open>r\<close> in magnitude (\<open>r\<close> is within the range of the doubles).
\<close>

definition double :: "runtime \<Rightarrow> rat \<Rightarrow> bool" where
  "double rt d = (rounded rt d = Fin d)"

definition nearest :: "runtime \<Rightarrow> rat \<Rightarrow> rat \<Rightarrow> bool" where
  "nearest rt r d = (case rounded rt r of Fin c \<Rightarrow> \<bar>r - c\<bar> \<le> \<bar>r - d\<bar> | _ \<Rightarrow> False)"

definition rounds_to_nearest :: "runtime \<Rightarrow> bool" where
  "rounds_to_nearest rt = (\<forall>r d. double rt d \<and> \<bar>r\<bar> \<le> \<bar>d\<bar> \<longrightarrow> nearest rt r d)"

text \<open>
  A reply reports its two token counts as numbers, the output count not negative.  (A
  finite number that \<^verbatim>\<open>JSON.parse\<close> returned is a double.)
\<close>

definition numeric_counts :: "runtime \<Rightarrow> json \<Rightarrow> bool" where
  "numeric_counts rt j =
    (case js_get j ''output_tokens'' of
       Some (JNum a) \<Rightarrow>
         num_le (Fin 0) a \<and>
         (case js_get j ''original_input_tokens'' of
            Some (JNum (Fin y)) \<Rightarrow> double rt y
          | Some (JNum b) \<Rightarrow> True
          | _ \<Rightarrow> False)
     | _ \<Rightarrow> False)"

text \<open>The same of the outcome of a call: it holds of every outcome without a reply that
  parses.\<close>

definition reported :: "runtime \<Rightarrow> api_outcome \<Rightarrow> bool" where
  "reported rt oc =
    (case oc of
       Ended data \<Rightarrow> (case json_parse rt data of None \<Rightarrow> True | Some j \<Rightarrow> numeric_counts rt j)
     | _ \<Rightarrow> True)"

text \<open>The failures of a call: a timeout, a transport error, a response that does not
  parse.\<close>

definition failed :: "runtime \<Rightarrow> api_outcome \<Rightarrow> bool" where
  "failed rt oc =
    (case oc of
       Timeout \<Rightarrow> True
     | TransportError \<Rightarrow> True
     | Cut \<Rightarrow> False
     | Ended data \<Rightarrow> json_parse rt data = None)"

text \<open>The guard \<^verbatim>\<open>!body.messages\<close>: the \<^verbatim>\<open>messages\<close> of the decoded payload is absent
  or falsy.\<close>

definition no_messages :: "json \<Rightarrow> bool" where
  "no_messages b = (case js_get b ''messages'' of None \<Rightarrow> True | Some m \<Rightarrow> \<not> truthy m)"

text \<open>
  Two objects have the same properties in the same order, with the same values except
  possibly under the key \<open>k\<close>.
\<close>

fun same_except :: "string \<Rightarrow> json \<Rightarrow> json \<Rightarrow> bool" where
  "same_except k (JObj a) (JObj b) =
    list_all2 (\<lambda>x y. fst x = fst y \<and> (fst x = k \<or> snd x = snd y)) a b"
| "same_except k v w = False"

text \<open>The condition of the inner loop under which a block is sent to compression.\<close>

definition eligible_block :: "runtime \<Rightarrow> config \<Rightarrow> json \<Rightarrow> bool" where
  "eligible_block rt cfg block =
    (js_get block ''type'' = Some (JStr ''text'') \<and>
     (case js_get block ''text'' of
        None \<Rightarrow> False
      | Some t \<Rightarrow> truthy t \<and> js_less rt (min_length cfg) (text_length t) = Yes))"

text \<open>What the walk may do to a block, a message and a payload: an eligible block keeps
  everything but its \<^verbatim>\<open>text\<close>, a recognised message with a long string content keeps
  everything but its \<^verbatim>\<open>content\<close>, a recognised message with an array content keeps
  everything but the texts of its eligible blocks, the payload keeps everything but its
  \<^verbatim>\<open>messages\<close>; whatever else there is stays as it is.\<close>

definition block_frame :: "runtime \<Rightarrow> config \<Rightarrow> json \<Rightarrow> json \<Rightarrow> bool" where
  "block_frame rt cfg block block' =
    (if eligible_block rt cfg block then same_except ''text'' block block'
     else block' = block)"

definition msg_frame :: "runtime \<Rightarrow> config \<Rightarrow> json \<Rightarrow> json \<Rightarrow> bool" where
  "msg_frame rt cfg msg msg' =
    (if recognised msg then
       (case js_get msg ''content'' of
          Some (JStr c) \<Rightarrow>
            if minTextLength cfg < int (length c) then same_except ''content'' msg msg'
            else msg' = msg
        | Some (JArr bs) \<Rightarrow>
            same_except ''content'' msg msg' \<and>
            (case js_get msg' ''content'' of
               Some (JArr bs') \<Rightarrow> list_all2 (block_frame rt cfg) bs bs'
             | _ \<Rightarrow> False)
        | _ \<Rightarrow> msg' = msg)
     else msg' = msg)"

definition payload_frame :: "runtime \<Rightarrow> config \<Rightarrow> json \<Rightarrow> json \<Rightarrow> bool" where
  "payload_frame rt cfg b b' =
    (case js_get b ''messages'' of
       Some (JArr ms) \<Rightarrow>
         same_except ''messages'' b b' \<and>
         (case js_get b' ''messages'' of
            Some (JArr ms') \<Rightarrow> list_all2 (msg_frame rt cfg) ms ms'
          | _ \<Rightarrow> False)
     | _ \<Rightarrow> b' = b)"

text \<open>A message the walk has nothing to do on: its role is not recognised, or its content
  is neither a string nor an array, or its content is a string that is not longer than the
  threshold.\<close>

definition inert_message :: "config \<Rightarrow> json \<Rightarrow> bool" where
  "inert_message cfg msg =
    (if recognised msg then
       (case js_get msg ''content'' of
          Some (JStr c) \<Rightarrow> \<not> minTextLength cfg < int (length c)
        | Some (JArr bs) \<Rightarrow> False
        | _ \<Rightarrow> True)
     else True)"

text \<open>A block the walk has nothing to do on: its type is not \<^verbatim>\<open>"text"\<close>, or its
  \<^verbatim>\<open>text\<close> is absent or falsy (the empty string).\<close>

definition inert_block :: "json \<Rightarrow> bool" where
  "inert_block block =
    (if js_get block ''type'' = Some (JStr ''text'') then
       (case js_get block ''text'' of None \<Rightarrow> True | Some t \<Rightarrow> \<not> truthy t)
     else True)"

text \<open>A string content, and the string text of a block, that does not exceed the
  threshold.\<close>

definition short_content :: "config \<Rightarrow> json \<Rightarrow> bool" where
  "short_content cfg msg =
    (case js_get msg ''content'' of
       Some (JStr c) \<Rightarrow> int (length c) \<le> minTextLength cfg
     | _ \<Rightarrow> False)"

definition short_text :: "config \<Rightarrow> json \<Rightarrow> bool" where
  "short_text cfg block =
    (case js_get block ''text'' of
       Some (JStr t) \<Rightarrow> int (length t) \<le> minTextLength cfg
     | _ \<Rightarrow> False)"

text \<open>No text of the message list exceeds the threshold.\<close>

definition settled_message :: "runtime \<Rightarrow> config \<Rightarrow> json \<Rightarrow> bool" where
  "settled_message rt cfg msg =
    (if recognised msg then
       (case js_get msg ''content'' of
          Some (JStr c) \<Rightarrow> \<not> minTextLength cfg < int (length c)
        | Some (JArr bs) \<Rightarrow> list_all (\<lambda>block. \<not> eligible_block rt cfg block) bs
        | _ \<Rightarrow> True)
     else True)"

definition settled :: "runtime \<Rightarrow> config \<Rightarrow> json list \<Rightarrow> bool" where
  "settled rt cfg ms = list_all (settled_message rt cfg) ms"

section \<open>Sample values\<close>

text \<open>Concrete configurations, runtimes, replies and payloads on which the properties
  below are evaluated.\<close>

definition cfg_default :: config where
  "cfg_default =
    \<lparr>ttcKey = Some ''key'', minTextLength = 150, anthropicHost = ''api.anthropic.com''\<rparr>"

text \<open>The code units of a string of the model; for an ASCII string they are its UTF-8
  bytes as well.\<close>

definition units :: "string \<Rightarrow> ustring" where
  "units s = map of_char s"

text \<open>
  A runtime given by the documents it parses and the values it writes.  Its bodies are
  ASCII, where a byte is a code unit; its arithmetic is exact, as a double's is on the
  integers of the samples; the samples have no array or object where a primitive is
  asked for, and no string where a number is.
\<close>

definition rt_sample :: "(ustring \<times> json) list \<Rightarrow> (json \<times> ustring) list \<Rightarrow> runtime" where
  "rt_sample docs texts =
    \<lparr>json_parse = map_of docs,
     json_stringify = (\<lambda>v. case map_of texts v of Some s \<Rightarrow> s | None \<Rightarrow> units ''null''),
     utf8_decode = (\<lambda>bs. bs),
     utf8_encode = (\<lambda>us. us),
     to_primitive = (\<lambda>v. Some (PStr ''[object Object]'')),
     string_to_number = (\<lambda>s. NaN),
     number_to_string = (\<lambda>n. ''NaN''),
     rounded = Fin\<rparr>"

definition text500 :: string where
  "text500 = replicate 500 CHR ''a''"

text \<open>Replies of the compression service, as the text of the response and as what
  \<^verbatim>\<open>JSON.parse\<close> makes of it, and the service that gives one reply to every call.\<close>

definition raw_reply_80_200 :: ustring where
  \<open>raw_reply_80_200 =
    units ''{"output":"short","output_tokens":80,"original_input_tokens":200}''\<close>

definition doc_reply_80_200 :: json where
  "doc_reply_80_200 =
    JObj [(''output'', JStr ''short''), (''output_tokens'', JNum (Fin 80)),
          (''original_input_tokens'', JNum (Fin 200))]"

definition raw_reply_negative :: ustring where
  \<open>raw_reply_negative =
    units ''{"output":"short","output_tokens":-5,"original_input_tokens":3}''\<close>

definition doc_reply_negative :: json where
  "doc_reply_negative =
    JObj [(''output'', JStr ''short''), (''output_tokens'', JNum (Fin (- 5))),
          (''original_input_tokens'', JNum (Fin 3))]"

definition raw_reply_strings :: ustring where
  \<open>raw_reply_strings =
    units ''{"output":"short","output_tokens":"abb","original_input_tokens":"abc"}''\<close>

definition doc_reply_strings :: json where
  "doc_reply_strings =
    JObj [(''output'', JStr ''short''), (''output_tokens'', JStr ''abb''),
          (''original_input_tokens'', JStr ''abc'')]"

definition raw_reply_empty :: ustring where
  \<open>raw_reply_empty = units ''{"output":"","output_tokens":0,"original_input_tokens":200}''\<close>

definition doc_reply_empty :: json where
  "doc_reply_empty =
    JObj [(''output'', JStr []), (''output_tokens'', JNum (Fin 0)),
          (''original_input_tokens'', JNum (Fin 200))]"

definition raw_reply_large :: ustring where
  \<open>raw_reply_large =
    units ''{"output":"short","output_tokens":1,"original_input_tokens":9007199254740994}''\<close>

definition doc_reply_large :: json where
  "doc_reply_large =
    JObj [(''output'', JStr ''short''), (''output_tokens'', JNum (Fin 1)),
          (''original_input_tokens'', JNum (Fin 9007199254740994))]"

definition replies :: "ustring \<Rightarrow> service" where
  "replies data n t = Ended data"

definition rt_reply :: "ustring \<Rightarrow> json \<Rightarrow> runtime" where
  "rt_reply data doc = rt_sample [(data, doc)] []"

text \<open>Above \<open>2 ^ 53\<close> the doubles are the even integers: \<open>2 ^ 53 + 1\<close> is half way between
  two of them and is rounded to the one with the even significand, \<open>2 ^ 53\<close>.\<close>

definition rt_large :: runtime where
  "rt_large =
    (rt_reply raw_reply_large doc_reply_large)
      \<lparr>rounded := (\<lambda>r. if r = 9007199254740993 then Fin 9007199254740992 else Fin r)\<rparr>"

text \<open>Scenario B of the specification: one user message whose content is a 500-character
  string, and the same payload with the content the service returns.\<close>

definition msg_long :: "(string \<times> json) list" where
  "msg_long = [(''role'', JStr ''user''), (''content'', JStr text500)]"

definition payload_b :: "(string \<times> json) list" where
  "payload_b =
    [(''model'', JStr ''claude''), (''max_tokens'', JNum (Fin 1024)),
     (''messages'', JArr [JObj msg_long])]"

definition payload_b_short :: "(string \<times> json) list" where
  "payload_b_short =
    [(''model'', JStr ''claude''), (''max_tokens'', JNum (Fin 1024)),
     (''messages'', JArr [JObj [(''role'', JStr ''user''), (''content'', JStr ''short'')]])]"

definition raw_b :: ustring where
  \<open>raw_b =
    units (''{"model":"claude","max_tokens":1024,"messages":[{"role":"user","content":"''
      @ text500 @ ''"}]}'')\<close>

definition raw_b_short :: ustring where
  \<open>raw_b_short =
    units ''{"model":"claude","max_tokens":1024,"messages":[{"role":"user","content":"short"}]}''\<close>

definition rt_b :: runtime where
  "rt_b =
    rt_sample [(raw_b, JObj payload_b), (raw_reply_80_200, doc_reply_80_200)]
      [(JObj payload_b_short, raw_b_short)]"

text \<open>Payloads that make the walk throw: a null entry in the message list, alone and after
  a long message.  A payload without messages.  A payload whose \<^verbatim>\<open>messages\<close> is a
  string, with the white space of its body and without.\<close>

definition payload_null_entry :: "(string \<times> json) list" where
  "payload_null_entry = [(''messages'', JArr [JNull])]"

definition payload_long_then_null :: "(string \<times> json) list" where
  "payload_long_then_null = [(''messages'', JArr [JObj msg_long, JNull])]"

definition doc_no_messages :: json where
  "doc_no_messages = JObj [(''model'', JStr ''claude'')]"

definition raw_no_messages :: ustring where
  \<open>raw_no_messages = units ''{"model":"claude"}''\<close>

definition raw_null_entry :: ustring where
  \<open>raw_null_entry = units ''{"messages":[null]}''\<close>

definition raw_long_then_null :: ustring where
  \<open>raw_long_then_null =
    units (''{"messages":[{"role":"user","content":"'' @ text500 @ ''"},null]}'')\<close>

definition rt_long_then_null :: runtime where
  "rt_long_then_null =
    rt_sample [(raw_long_then_null, JObj payload_long_then_null),
               (raw_reply_80_200, doc_reply_80_200)] []"

definition raw_messages_string :: ustring where
  \<open>raw_messages_string = units ''{ "messages": "see above" }''\<close>

definition raw_messages_string_out :: ustring where
  \<open>raw_messages_string_out = units ''{"messages":"see above"}''\<close>

definition doc_messages_string :: json where
  "doc_messages_string = JObj [(''messages'', JStr ''see above'')]"

definition rt_messages_string :: runtime where
  "rt_messages_string =
    rt_sample [(raw_messages_string, doc_messages_string)]
      [(doc_messages_string, raw_messages_string_out)]"

text \<open>A payload and its bytes after a round trip through \<^verbatim>\<open>JSON.parse\<close> and
  \<^verbatim>\<open>JSON.stringify\<close>: the white space goes, and \<^verbatim>\<open>1.0\<close> is written \<^verbatim>\<open>1\<close>.\<close>

definition raw_temperature :: ustring where
  \<open>raw_temperature = units ''{"messages": [], "temperature": 1.0}''\<close>

definition raw_temperature_out :: ustring where
  \<open>raw_temperature_out = units ''{"messages":[],"temperature":1}''\<close>

definition doc_temperature :: json where
  "doc_temperature = JObj [(''messages'', JArr []), (''temperature'', JNum (Fin 1))]"

definition rt_temperature :: runtime where
  "rt_temperature =
    rt_sample [(raw_temperature, doc_temperature)] [(doc_temperature, raw_temperature_out)]"

text \<open>A payload with a number beyond the range of the doubles: \<^verbatim>\<open>JSON.parse\<close> makes it
  \<^verbatim>\<open>Infinity\<close>, which \<^verbatim>\<open>JSON.stringify\<close> writes \<^verbatim>\<open>null\<close>.\<close>

definition raw_huge :: ustring where
  \<open>raw_huge = units ''{"messages":[],"x":1e400}''\<close>

definition raw_huge_out :: ustring where
  \<open>raw_huge_out = units ''{"messages":[],"x":null}''\<close>

definition doc_huge :: json where
  "doc_huge = JObj [(''messages'', JArr []), (''x'', JNum PInf)]"

definition doc_huge_out :: json where
  "doc_huge_out = JObj [(''messages'', JArr []), (''x'', JNull)]"

definition rt_huge :: runtime where
  "rt_huge =
    rt_sample [(raw_huge, doc_huge), (raw_huge_out, doc_huge_out)] [(doc_huge, raw_huge_out)]"

text \<open>A payload with a system message, and a user message of an image block, a long text
  block with a field of its own, and a short text block; and the same payload after the
  long text was replaced.\<close>

definition blocks_c :: "json list" where
  "blocks_c =
    [JObj [(''type'', JStr ''image''), (''source'', JObj [(''data'', JStr text500)])],
     JObj [(''type'', JStr ''text''), (''text'', JStr text500),
           (''cache_control'', JObj [(''type'', JStr ''ephemeral'')])],
     JObj [(''type'', JStr ''text''), (''text'', JStr ''hi'')]]"

definition blocks_c_short :: "json list" where
  "blocks_c_short =
    [JObj [(''type'', JStr ''image''), (''source'', JObj [(''data'', JStr text500)])],
     JObj [(''type'', JStr ''text''), (''text'', JStr ''short''),
           (''cache_control'', JObj [(''type'', JStr ''ephemeral'')])],
     JObj [(''type'', JStr ''text''), (''text'', JStr ''hi'')]]"

definition msgs_c :: "json list" where
  "msgs_c =
    [JObj [(''role'', JStr ''system''), (''content'', JStr text500)],
     JObj [(''role'', JStr ''user''), (''content'', JArr blocks_c)]]"

definition msgs_c_short :: "json list" where
  "msgs_c_short =
    [JObj [(''role'', JStr ''system''), (''content'', JStr text500)],
     JObj [(''role'', JStr ''user''), (''content'', JArr blocks_c_short)]]"

definition doc_c :: json where
  "doc_c = JObj [(''model'', JStr ''claude''), (''messages'', JArr msgs_c), (''stream'', JBool True)]"

definition doc_c_short :: json where
  "doc_c_short =
    JObj [(''model'', JStr ''claude''), (''messages'', JArr msgs_c_short), (''stream'', JBool True)]"

text \<open>A runtime that maps the names of these two documents to them and back, and parses
  the reply of the service.\<close>

definition rt_c :: runtime where
  "rt_c =
    rt_sample
      [(raw_reply_80_200, doc_reply_80_200), (units ''doc_c'', doc_c),
       (units ''doc_c_short'', doc_c_short)]
      [(doc_c_short, units ''doc_c_short''), (doc_c, units ''doc_c'')]"

text \<open>Counters, requests and upstreams.\<close>

definition stats0 :: stats where
  "stats0 =
    \<lparr>requests = 41, compressed = 7, tokensSaved = Fin 1000, originalTokens = PNum (Fin 5000)\<rparr>"

definition headers_in :: header_map where
  "headers_in =
    [''host'' \<mapsto> HStr ''127.0.0.1:8877'', ''x-api-key'' \<mapsto> HStr ''secret'',
     ''anthropic-version'' \<mapsto> HStr ''2023-06-01'', ''connection'' \<mapsto> HStr ''keep-alive'',
     ''content-length'' \<mapsto> HStr ''999'']"

definition req_messages :: request where
  "req_messages =
    \<lparr>req_method = ''POST'', req_url = ''/v1/messages'', req_headers = headers_in,
     chunks = [raw_b]\<rparr>"

definition req_models :: request where
  "req_models =
    \<lparr>req_method = ''GET'', req_url = ''/v1/models'', req_headers = headers_in, chunks = []\<rparr>"

definition req_other_post :: request where
  "req_other_post =
    \<lparr>req_method = ''POST'', req_url = ''/v1/complete'', req_headers = headers_in,
     chunks = [raw_b]\<rparr>"

text \<open>A request outside the messages endpoint whose body is the one byte \<open>255\<close>, which
  is not UTF-8: decoding gives the replacement character \<open>U+FFFD\<close>, whose encoding is the
  three bytes \<open>239 191 189\<close>.\<close>

definition req_binary :: request where
  "req_binary =
    \<lparr>req_method = ''POST'', req_url = ''/v1/files'', req_headers = headers_in,
     chunks = [[255]]\<rparr>"

definition rt_binary :: runtime where
  "rt_binary =
    (rt_sample [] [])
      \<lparr>utf8_decode := (\<lambda>bs. if bs = [255] then [65533] else bs),
       utf8_encode := (\<lambda>us. if us = [65533] then [239, 191, 189] else us)\<rparr>"

definition up_ok :: "outbound \<Rightarrow> upstream" where
  "up_ok o_req = Responds \<lparr>up_status = 200, up_headers = Map.empty, up_body = units ''ok''\<rparr>"

definition up_refused :: "outbound \<Rightarrow> upstream" where
  "up_refused o_req = Fails ''connect ECONNREFUSED''"

definition raw_bad_gateway :: ustring where
  \<open>raw_bad_gateway = units ''{"error":"Bad Gateway","message":"connect ECONNREFUSED"}''\<close>

definition rt_gateway :: runtime where
  "rt_gateway =
    rt_sample []
      [(JObj [(''error'', JStr ''Bad Gateway''), (''message'', JStr ''connect ECONNREFUSED'')],
        raw_bad_gateway)]"

text \<open>An upstream that answers 200 and part of a body, and whose connection then
  breaks.\<close>

definition partial_body :: bytes where
  \<open>partial_body = units ''{"id":"msg_01","type":"mess''\<close>

definition up_broken :: "outbound \<Rightarrow> upstream" where
  "up_broken o_req =
    Breaks \<lparr>up_status = 200, up_headers = Map.empty, up_body = partial_body\<rparr>"

section \<open>Properties\<close>

subsection \<open>The compression client\<close>

lemma text_length_JStr: "text_length (JStr s) = Some (JNum (Fin (of_nat (length s))))"
  by (simp add: text_length_def)

lemma less_min_length:
  "js_less rt (Some (JNum (Fin (of_nat n)))) (min_length cfg)
    = (if int n < minTextLength cfg then Yes else No)"
proof -
  have "((of_nat n :: rat) < of_int (minTextLength cfg)) = (int n < minTextLength cfg)"
    by (metis of_int_less_iff of_int_of_nat_eq)
  then show ?thesis by (simp add: min_length_def js_less_def)
qed

lemma min_length_less:
  "js_less rt (min_length cfg) (Some (JNum (Fin (of_nat n))))
    = (if minTextLength cfg < int n then Yes else No)"
proof -
  have "((of_int (minTextLength cfg) :: rat) < of_nat n) = (minTextLength cfg < int n)"
    by (metis of_int_less_iff of_int_of_nat_eq)
  then show ?thesis by (simp add: min_length_def js_less_def)
qed

text \<open>On a string \<^verbatim>\<open>compressText\<close> never throws: it skips, or it makes one call and
  settles as the call ends.\<close>

lemma compressText_JStr:
  "compressText rt cfg net sent (JStr s) =
    (if skipped cfg s then (Resolves (fallback (JStr s)), sent)
     else (settle rt (JStr s) (net (length sent) (JStr s)), sent @ [JStr s]))"
  by (simp add: compressText_def skipped_def text_length_JStr less_min_length)

lemma within_original_fallback: "within_original rt (fallback t)"
  by (simp add: within_original_def fallback_def num_le_def)

lemma saved_bound:
  assumes law: "rounds_to_nearest rt"
    and nonneg: "num_le (Fin 0) a"
    and less: "num_less a b"
    and dbl: "case b of Fin y \<Rightarrow> double rt y | _ \<Rightarrow> True"
  shows "num_le (num_sub rt b a) b"
proof (cases a)
  case NaN
  with nonneg show ?thesis by (simp add: num_le_def)
next
  case PInf
  with less show ?thesis by (cases b) simp_all
next
  case NInf
  with nonneg show ?thesis by (simp add: num_le_def)
next
  case (Fin x)
  with nonneg have x0: "0 \<le> x" by (auto simp add: num_le_def)
  show ?thesis
  proof (cases b)
    case NaN
    with less Fin show ?thesis by simp
  next
    case NInf
    with less Fin show ?thesis by simp
  next
    case PInf
    with Fin show ?thesis by (simp add: num_le_def)
  next
    case (Fin y)
    with less \<open>a = Fin x\<close> have xy: "x < y" by simp
    from dbl Fin have "double rt y" by simp
    moreover from x0 xy have "\<bar>y - x\<bar> \<le> \<bar>y\<bar>" by simp
    ultimately have "nearest rt (y - x) y"
      using law by (simp add: rounds_to_nearest_def)
    then obtain c where c: "rounded rt (y - x) = Fin c" and near: "\<bar>y - x - c\<bar> \<le> \<bar>y - x - y\<bar>"
      by (auto simp add: nearest_def split: number.splits)
    from near x0 have "c \<le> y" by simp
    with c Fin \<open>a = Fin x\<close> show ?thesis by (auto simp add: num_le_def)
  qed
qed

lemma on_end_bound:
  assumes law: "rounds_to_nearest rt"
    and parsed: "json_parse rt data = Some j"
    and counts: "numeric_counts rt j"
  shows "within_original rt (on_end rt t data)"
proof -
  from counts obtain a b where
    a: "js_get j ''output_tokens'' = Some (JNum a)" and a0: "num_le (Fin 0) a" and
    b: "js_get j ''original_input_tokens'' = Some (JNum b)" and
    dbl: "case b of Fin y \<Rightarrow> double rt y | _ \<Rightarrow> True"
    by (auto simp add: numeric_counts_def split: option.splits json.splits number.splits)
  have less: "js_less rt (Some (JNum a)) (Some (JNum b)) = (if num_less a b then Yes else No)"
    by (simp add: js_less_def)
  have minus: "js_minus rt (Some (JNum b)) (Some (JNum a)) = Some (num_sub rt b a)"
    by (simp add: js_minus_def)
  show ?thesis
  proof (cases "on_end rt t data = fallback t")
    case True
    then show ?thesis by (simp add: within_original_fallback)
  next
    case False
    with parsed a b less minus have acc: "num_less a b"
      by (auto simp add: on_end_def split: option.splits if_splits)
    with False parsed a b less minus
    have "saved (on_end rt t data) = num_sub rt b a"
      and "original (on_end rt t data) = Some (JNum b)"
      by (auto simp add: on_end_def split: option.splits if_splits)
    with saved_bound [OF law a0 acc dbl] show ?thesis
      by (simp add: within_original_def)
  qed
qed

lemma settle_bound:
  assumes "rounds_to_nearest rt" "reported rt oc" "settle rt t oc = Resolves r"
  shows "within_original rt r"
proof (cases oc)
  case (Ended data)
  show ?thesis
  proof (cases "json_parse rt data")
    case None
    with Ended assms(3) have "r = fallback t" by (simp add: on_end_def)
    then show ?thesis by (simp add: within_original_fallback)
  next
    case (Some j)
    with Ended assms(2) have "numeric_counts rt j" by (simp add: reported_def)
    from on_end_bound [OF assms(1) Some this] Ended assms(3) show ?thesis by auto
  qed
qed (use assms(3) in \<open>auto simp add: within_original_fallback\<close>)

lemma settle_failed: "failed rt oc \<Longrightarrow> settle rt t oc = Resolves (fallback t)"
  by (cases oc) (simp_all add: failed_def on_end_def)

lemma settle_resolves: "oc \<noteq> Cut \<Longrightarrow> \<exists>r. settle rt t oc = Resolves r"
  by (cases oc) simp_all

text \<open>
  C1, as the code has it.  On a text string:
  \<^item> when compression is skipped (no credential, empty text, text shorter than the
    threshold) \<^verbatim>\<open>compressText\<close> returns the fallback (the input text, zero saved, zero
    original) and nothing is sent to the service; otherwise exactly the text is sent;
  \<^item> when the call fails (timeout, transport error, a response that does not parse) it
    returns the fallback;
  \<^item> it returns a result whenever the call ends in an event the code listens for, that is
    in every way but a response cut after its headers;
  \<^item> the result it returns has \<^verbatim>\<open>saved <= original\<close> whenever no reply was parsed, and
    whenever the reply reports both token counts as numbers and the output count is not
    negative, in a runtime whose subtraction rounds to nearest.
\<close>

theorem compressText_contract:
  "(skipped cfg s \<longrightarrow>
      compressText rt cfg net sent (JStr s) = (Resolves (fallback (JStr s)), sent)) \<and>
   (\<not> skipped cfg s \<longrightarrow> snd (compressText rt cfg net sent (JStr s)) = sent @ [JStr s]) \<and>
   (\<not> skipped cfg s \<and> failed rt (net (length sent) (JStr s)) \<longrightarrow>
      fst (compressText rt cfg net sent (JStr s)) = Resolves (fallback (JStr s))) \<and>
   (net (length sent) (JStr s) \<noteq> Cut \<longrightarrow>
      (\<exists>r. fst (compressText rt cfg net sent (JStr s)) = Resolves r)) \<and>
   (rounds_to_nearest rt \<and> reported rt (net (length sent) (JStr s)) \<longrightarrow>
      (\<forall>r. fst (compressText rt cfg net sent (JStr s)) = Resolves r \<longrightarrow> within_original rt r))"
proof (cases "skipped cfg s")
  case True
  then show ?thesis by (simp add: compressText_JStr within_original_fallback)
next
  case False
  then show ?thesis
    by (auto simp add: compressText_JStr settle_failed settle_resolves settle_bound)
qed

text \<open>The sample text and the sample replies, evaluated.\<close>

lemma not_skipped_text500: "\<not> skipped cfg_default text500"
  by (simp add: skipped_def cfg_default_def key_missing_def text500_def)

lemma parse_rt_reply: "json_parse (rt_reply data doc) data = Some doc"
  by (simp add: rt_reply_def rt_sample_def)

lemma rounded_rt_reply: "rounded (rt_reply data doc) = Fin"
  by (simp add: rt_reply_def rt_sample_def)

lemma on_end_80_200:
  assumes "json_parse rt data = Some doc_reply_80_200" "rounded rt 120 = Fin 120"
  shows "on_end rt t data =
    \<lparr>ctext = JStr ''short'', saved = Fin 120, original = Some (JNum (Fin 200))\<rparr>"
  using assms by (simp add: on_end_def doc_reply_80_200_def js_less_def js_minus_def)

lemma compress_text500:
  assumes "json_parse rt data = Some doc_reply_80_200" "rounded rt 120 = Fin 120"
  shows "compressText rt cfg_default (replies data) sent (JStr text500) =
    (Resolves \<lparr>ctext = JStr ''short'', saved = Fin 120, original = Some (JNum (Fin 200))\<rparr>,
     sent @ [JStr text500])"
  using assms by (simp add: compressText_JStr not_skipped_text500 replies_def on_end_80_200)

text \<open>A response that is cut after its headers runs none of the listeners: the promise
  of \<^verbatim>\<open>compressText\<close> never settles.\<close>

lemma cut_response_never_settles:
  "compressText rt cfg_default (\<lambda>n t. Cut) [] (JStr text500) = (Unsettled, [JStr text500])"
  by (simp add: compressText_JStr not_skipped_text500)

text \<open>C1 on a 500-character text with the reply of scenario B, with a timeout, and on a
  short text.\<close>

theorem compressText_contract_witness:
  "rounds_to_nearest (rt_reply raw_reply_80_200 doc_reply_80_200) \<and>
   reported (rt_reply raw_reply_80_200 doc_reply_80_200)
     (replies raw_reply_80_200 0 (JStr text500)) \<and>
   compressText (rt_reply raw_reply_80_200 doc_reply_80_200) cfg_default
       (replies raw_reply_80_200) [] (JStr text500)
     = (Resolves \<lparr>ctext = JStr ''short'', saved = Fin 120, original = Some (JNum (Fin 200))\<rparr>,
        [JStr text500]) \<and>
   within_original (rt_reply raw_reply_80_200 doc_reply_80_200)
     \<lparr>ctext = JStr ''short'', saved = Fin 120, original = Some (JNum (Fin 200))\<rparr> \<and>
   failed (rt_reply raw_reply_80_200 doc_reply_80_200) Timeout \<and>
   compressText (rt_reply raw_reply_80_200 doc_reply_80_200) cfg_default
       (\<lambda>n t. Timeout) [] (JStr text500)
     = (Resolves (fallback (JStr text500)), [JStr text500]) \<and>
   skipped cfg_default ''hello'' \<and>
   compressText (rt_reply raw_reply_80_200 doc_reply_80_200) cfg_default
       (replies raw_reply_80_200) [] (JStr ''hello'')
     = (Resolves (fallback (JStr ''hello'')), [])"
proof -
  let ?rt = "rt_reply raw_reply_80_200 doc_reply_80_200"
  have law: "rounds_to_nearest ?rt"
    by (simp add: rounds_to_nearest_def nearest_def rounded_rt_reply)
  have rep: "reported ?rt (replies raw_reply_80_200 0 (JStr text500))"
    by (simp add: reported_def replies_def parse_rt_reply numeric_counts_def
        doc_reply_80_200_def num_le_def double_def rounded_rt_reply)
  have ev: "compressText ?rt cfg_default (replies raw_reply_80_200) [] (JStr text500)
     = (Resolves \<lparr>ctext = JStr ''short'', saved = Fin 120, original = Some (JNum (Fin 200))\<rparr>,
        [JStr text500])"
    by (simp add: compress_text500 parse_rt_reply rounded_rt_reply)
  have sk: "skipped cfg_default ''hello''"
    by (simp add: skipped_def cfg_default_def)
  have fl: "failed ?rt Timeout"
    by (simp add: failed_def)
  show ?thesis
    using compressText_contract [of cfg_default text500 ?rt "replies raw_reply_80_200" "[]"]
      compressText_contract [of cfg_default text500 ?rt "\<lambda>n t. Timeout" "[]"]
      compressText_contract [of cfg_default "''hello''" ?rt "replies raw_reply_80_200" "[]"]
      law rep ev sk fl not_skipped_text500
    by (simp add: prod_eq_iff)
qed

text \<open>
  C1 as stated returns a result with \<open>saved \<le> original\<close> for every input.  The code
  takes the token counts from the service as they come.  On a 500-character text, a reply
  that reports -5 output tokens for 3 original tokens is accepted with 8 tokens saved out
  of 3; and a reply that reports the strings \<^verbatim>\<open>"abb"\<close> and \<^verbatim>\<open>"abc"\<close> is accepted, the
  first being the smaller string, with \<^verbatim>\<open>NaN\<close> tokens saved out of \<^verbatim>\<open>"abc"\<close>.  And
  when the response of the service is cut after its headers, no result is returned.
\<close>

theorem saved_exceeds_original:
  "compressText (rt_reply raw_reply_negative doc_reply_negative) cfg_default
       (replies raw_reply_negative) [] (JStr text500)
     = (Resolves \<lparr>ctext = JStr ''short'', saved = Fin 8, original = Some (JNum (Fin 3))\<rparr>,
        [JStr text500]) \<and>
   \<not> within_original (rt_reply raw_reply_negative doc_reply_negative)
      \<lparr>ctext = JStr ''short'', saved = Fin 8, original = Some (JNum (Fin 3))\<rparr> \<and>
   compressText (rt_reply raw_reply_strings doc_reply_strings) cfg_default
       (replies raw_reply_strings) [] (JStr text500)
     = (Resolves \<lparr>ctext = JStr ''short'', saved = NaN, original = Some (JStr ''abc'')\<rparr>,
        [JStr text500]) \<and>
   \<not> within_original (rt_reply raw_reply_strings doc_reply_strings)
      \<lparr>ctext = JStr ''short'', saved = NaN, original = Some (JStr ''abc'')\<rparr> \<and>
   compressText (rt_sample [] []) cfg_default (\<lambda>n t. Cut) [] (JStr text500)
     = (Unsettled, [JStr text500])"
proof -
  have "on_end (rt_reply raw_reply_negative doc_reply_negative) (JStr text500) raw_reply_negative
      = \<lparr>ctext = JStr ''short'', saved = Fin 8, original = Some (JNum (Fin 3))\<rparr>"
    by (simp add: on_end_def parse_rt_reply rounded_rt_reply doc_reply_negative_def
        js_less_def js_minus_def)
  moreover
  have "on_end (rt_reply raw_reply_strings doc_reply_strings) (JStr text500) raw_reply_strings
      = \<lparr>ctext = JStr ''short'', saved = NaN, original = Some (JStr ''abc'')\<rparr>"
    by (simp add: on_end_def parse_rt_reply doc_reply_strings_def js_less_def js_minus_def)
      (simp add: rt_reply_def rt_sample_def)
  ultimately show ?thesis
    by (simp add: compressText_JStr not_skipped_text500 replies_def within_original_def
        num_le_def)
qed

lemma process_message_string:
  assumes "recognised (JObj m)" "map_of m ''content'' = Some (JStr c)"
    "minTextLength cfg < int (length c)"
  shows "process_message rt cfg net (JObj m) s og sent =
    compress_into rt cfg net (JObj m) ''content'' (JStr c) s og sent"
  using assms by (simp add: process_message_def)

text \<open>
  C2, as the code has it.  A call that reaches the service and gets a well-formed reply (an
  output string and the two token counts as numbers) accepts the compressed output if and
  only if the output is not empty and the reported output-token count is strictly less
  than the reported original-token count.  On acceptance the result text is the reply's
  output and \<open>saved\<close> is what JavaScript's \<^verbatim>\<open>original_input_tokens - output_tokens\<close>
  returns, the exact difference rounded to a double; otherwise the result is the fallback,
  although the call succeeded.  For a payload of one message with a long string content,
  acceptance replaces the content and adds these two numbers to totals that start at 0.
\<close>

theorem compressText_accepts:
  assumes reach: "\<not> skipped cfg c"
    and ans: "net (length sent) (JStr c) = Ended data"
    and parsed: "json_parse rt data = Some j"
    and wf: "js_get j ''output'' = Some (JStr out)" "js_get j ''output_tokens'' = Some (JNum a)"
      "js_get j ''original_input_tokens'' = Some (JNum b)"
  shows "compressText rt cfg net sent (JStr c) =
      (Resolves (if out \<noteq> [] \<and> num_less a b
                 then \<lparr>ctext = JStr out, saved = num_sub rt b a, original = Some (JNum b)\<rparr>
                 else fallback (JStr c)), sent @ [JStr c]) \<and>
    (out \<noteq> [] \<and> num_less a b \<and> sent = [] \<and> minTextLength cfg < int (length c) \<and>
     json_parse rt raw = Some (JObj kvs) \<and> map_of kvs ''messages'' = Some (JArr [JObj m]) \<and>
     recognised (JObj m) \<and> map_of m ''content'' = Some (JStr c) \<longrightarrow>
     processPayload rt cfg net [] raw =
       (Some \<lparr>body = json_stringify rt
           (JObj (AList.update ''messages''
              (JArr [JObj (AList.update ''content'' (JStr out) m)]) kvs)),
         totalSaved = num_add rt (Fin 0) (num_sub rt b a),
         totalOriginal = PNum (num_add rt (Fin 0) b)\<rparr>, [JStr c]))"
proof -
  have nn: "j \<noteq> JNull"
    using wf(1) by auto
  have ct: "compressText rt cfg net sent (JStr c) =
      (Resolves (if out \<noteq> [] \<and> num_less a b
                 then \<lparr>ctext = JStr out, saved = num_sub rt b a, original = Some (JNum b)\<rparr>
                 else fallback (JStr c)), sent @ [JStr c])"
    using reach ans parsed wf nn
    by (simp add: compressText_JStr on_end_def js_less_def js_minus_def)
  have pp: "processPayload rt cfg net [] raw =
       (Some \<lparr>body = json_stringify rt
           (JObj (AList.update ''messages''
              (JArr [JObj (AList.update ''content'' (JStr out) m)]) kvs)),
         totalSaved = num_add rt (Fin 0) (num_sub rt b a),
         totalOriginal = PNum (num_add rt (Fin 0) b)\<rparr>, [JStr c])"
    if h: "out \<noteq> []" "num_less a b" "sent = []" "minTextLength cfg < int (length c)"
      "json_parse rt raw = Some (JObj kvs)" "map_of kvs ''messages'' = Some (JArr [JObj m])"
      "recognised (JObj m)" "map_of m ''content'' = Some (JStr c)"
  proof -
    have "process_message rt cfg net (JObj m) (Fin 0) (PNum (Fin 0)) [] =
        Done (JObj (AList.update ''content'' (JStr out) m))
          (num_add rt (Fin 0) (num_sub rt b a)) (PNum (num_add rt (Fin 0) b)) [JStr c]"
      using h ct
      by (simp add: process_message_string compress_into_def take_result_def prim_plus_def)
    then show ?thesis
      using h by (simp add: processPayload_def walk_payload_def)
  qed
  from ct pp show ?thesis by blast
qed

lemma recognised_msg_long: "recognised (JObj msg_long)"
  by (simp add: recognised_def msg_long_def)

lemma raw_b_not_reply: "raw_b \<noteq> raw_reply_80_200"
  by (simp add: raw_b_def raw_reply_80_200_def units_def)

lemma parse_rt_b:
  "json_parse rt_b raw_b = Some (JObj payload_b)"
  "json_parse rt_b raw_reply_80_200 = Some doc_reply_80_200"
  "rounded rt_b = Fin"
  using raw_b_not_reply by (simp_all add: rt_b_def rt_sample_def)

text \<open>Scenario B: output tokens 80, original tokens 200, so 120 saved of 200.\<close>

theorem compressText_accepts_witness:
  "compressText rt_b cfg_default (replies raw_reply_80_200) [] (JStr text500)
     = (Resolves \<lparr>ctext = JStr ''short'', saved = Fin 120, original = Some (JNum (Fin 200))\<rparr>,
        [JStr text500]) \<and>
   processPayload rt_b cfg_default (replies raw_reply_80_200) [] raw_b
     = (Some \<lparr>body = raw_b_short, totalSaved = Fin 120, totalOriginal = PNum (Fin 200)\<rparr>,
        [JStr text500])"
proof -
  have upd: "JObj (AList.update ''messages''
      (JArr [JObj (AList.update ''content'' (JStr ''short'') msg_long)]) payload_b)
      = JObj payload_b_short"
    by (simp add: payload_b_def payload_b_short_def msg_long_def)
  have len: "minTextLength cfg_default < int (length text500)"
    by (simp add: cfg_default_def text500_def)
  have str: "json_stringify rt_b (JObj payload_b_short) = raw_b_short"
    by (simp add: rt_b_def rt_sample_def)
  have fields: "js_get doc_reply_80_200 ''output'' = Some (JStr ''short'')"
    "js_get doc_reply_80_200 ''output_tokens'' = Some (JNum (Fin 80))"
    "js_get doc_reply_80_200 ''original_input_tokens'' = Some (JNum (Fin 200))"
    by (simp_all add: doc_reply_80_200_def)
  have msgs: "map_of payload_b ''messages'' = Some (JArr [JObj msg_long])"
    "map_of msg_long ''content'' = Some (JStr text500)"
    by (simp_all add: payload_b_def msg_long_def)
  show ?thesis
    using compressText_accepts [where cfg = cfg_default and c = text500
        and net = "replies raw_reply_80_200" and sent = "[]" and data = raw_reply_80_200
        and j = doc_reply_80_200
        and out = "''short''" and a = "Fin 80" and b = "Fin 200" and rt = rt_b and raw = raw_b
        and kvs = payload_b and m = msg_long]
      not_skipped_text500 recognised_msg_long len fields msgs
    by (simp add: replies_def parse_rt_b upd str)
qed

text \<open>
  C2 as stated accepts whenever the output-token count is the smaller one, and gives
  \<open>original_input_tokens - output_tokens\<close> as the tokens saved.  The code also asks for a
  truthy \<^verbatim>\<open>json.output\<close>: a well-formed reply with the empty string as output and 0 of
  200 tokens is declined.  And its subtraction is one of doubles: for 1 of
  9007199254740994 tokens it returns 9007199254740992, which is not the difference.
\<close>

theorem empty_output_is_declined:
  "js_get doc_reply_empty ''output'' = Some (JStr []) \<and>
   js_get doc_reply_empty ''output_tokens'' = Some (JNum (Fin 0)) \<and>
   js_get doc_reply_empty ''original_input_tokens'' = Some (JNum (Fin 200)) \<and>
   num_less (Fin 0) (Fin 200) \<and>
   compressText (rt_reply raw_reply_empty doc_reply_empty) cfg_default
       (replies raw_reply_empty) [] (JStr text500)
     = (Resolves \<lparr>ctext = JStr text500, saved = Fin 0, original = Some (JNum (Fin 0))\<rparr>,
        [JStr text500]) \<and>
   compressText rt_large cfg_default (replies raw_reply_large) [] (JStr text500)
     = (Resolves \<lparr>ctext = JStr ''short'', saved = Fin 9007199254740992,
          original = Some (JNum (Fin 9007199254740994))\<rparr>, [JStr text500]) \<and>
   (9007199254740994 :: rat) - 1 \<noteq> 9007199254740992"
proof -
  have "on_end (rt_reply raw_reply_empty doc_reply_empty) (JStr text500) raw_reply_empty
      = fallback (JStr text500)"
    by (simp add: on_end_def parse_rt_reply doc_reply_empty_def)
  moreover
  have "json_parse rt_large raw_reply_large = Some doc_reply_large"
    by (simp add: rt_large_def parse_rt_reply)
  then have "on_end rt_large (JStr text500) raw_reply_large
      = \<lparr>ctext = JStr ''short'', saved = Fin 9007199254740992,
          original = Some (JNum (Fin 9007199254740994))\<rparr>"
    by (simp add: on_end_def doc_reply_large_def js_less_def js_minus_def)
      (simp add: rt_large_def)
  ultimately show ?thesis
    by (simp add: compressText_JStr not_skipped_text500 replies_def fallback_def
        doc_reply_empty_def)
qed

subsection \<open>The payload transformer: failure policy\<close>

text \<open>
  Where the walk throws: on a null payload, on a truthy \<^verbatim>\<open>messages\<close> that is a
  number, a boolean or an object, on a null message, on a null block, where the
  comparison of an exotic \<^verbatim>\<open>text.length\<close> throws, and where adding an exotic
  \<^verbatim>\<open>original\<close> to the total throws.
\<close>

lemma process_message_throws:
  "(\<exists>sent'. process_message rt cfg net msg s og sent = Throws sent') \<longleftrightarrow>
    msg = JNull \<or>
    (recognised msg \<and>
     ((\<exists>c. js_get msg ''content'' = Some (JStr c) \<and> minTextLength cfg < int (length c) \<and>
         (\<exists>sent'. compress_into rt cfg net msg ''content'' (JStr c) s og sent = Throws sent')) \<or>
      (\<exists>bs. js_get msg ''content'' = Some (JArr bs) \<and>
         (\<exists>sent'. process_blocks rt cfg net bs s og sent = Throws sent'))))"
  by (auto simp add: process_message_def split: option.splits json.splits step.splits)

lemma walk_payload_fails:
  "(\<exists>sent'. walk_payload rt cfg net sent b = Failed sent') \<longleftrightarrow>
    b = JNull \<or>
    (\<exists>m. js_get b ''messages'' = Some m \<and> truthy m \<and>
       (case m of
          JArr ms \<Rightarrow>
            \<exists>sent'. process_messages rt cfg net ms (Fin 0) (PNum (Fin 0)) sent = Throws sent'
        | JStr cs \<Rightarrow> False
        | _ \<Rightarrow> True))"
  by (auto simp add: walk_payload_def split: option.splits json.splits step.splits)

lemma walk_no_messages:
  "no_messages b \<Longrightarrow>
    walk_payload rt cfg net sent b = NoMessages \<or> walk_payload rt cfg net sent b = Failed sent"
  by (auto simp add: no_messages_def walk_payload_def split: option.splits)

lemma passes_through:
  assumes "json_parse rt raw = None \<or>
    (\<exists>b. json_parse rt raw = Some b \<and>
       (no_messages b \<or> (\<exists>sent'. walk_payload rt cfg net sent b = Failed sent')))"
  shows "fst (processPayload rt cfg net sent raw) =
    Some \<lparr>body = raw, totalSaved = Fin 0, totalOriginal = PNum (Fin 0)\<rparr>"
proof (cases "json_parse rt raw")
  case None
  then show ?thesis by (simp add: processPayload_def passthrough_def)
next
  case (Some b)
  with assms have "no_messages b \<or> (\<exists>sent'. walk_payload rt cfg net sent b = Failed sent')"
    by simp
  then have "walk_payload rt cfg net sent b = NoMessages \<or>
      (\<exists>sent'. walk_payload rt cfg net sent b = Failed sent')"
    using walk_no_messages [of b rt cfg net sent] by blast
  then show ?thesis
    using Some by (auto simp add: processPayload_def passthrough_def)
qed

lemma string_messages:
  assumes "json_parse rt raw = Some b" "js_get b ''messages'' = Some (JStr (c # cs))"
  shows "processPayload rt cfg net sent raw =
    (Some \<lparr>body = json_stringify rt b, totalSaved = Fin 0, totalOriginal = PNum (Fin 0)\<rparr>,
     sent)"
proof -
  from assms(2) have "b \<noteq> JNull" by auto
  with assms show ?thesis by (simp add: processPayload_def walk_payload_def)
qed

text \<open>
  C3, as the code has it.  If the raw body does not decode, or the \<^verbatim>\<open>messages\<close> of the
  decoded payload is absent or falsy, or an exception occurs in the walk,
  \<^verbatim>\<open>processPayload\<close> returns the raw body as it came, with both totals zero.  If the
  \<^verbatim>\<open>messages\<close> of the decoded payload is a string that is not empty, it returns the
  encoding of the decoded payload, with both totals zero and nothing sent to the service.
\<close>

theorem processPayload_passes_through:
  "(json_parse rt raw = None \<or>
    (\<exists>b. json_parse rt raw = Some b \<and>
       (no_messages b \<or> (\<exists>sent'. walk_payload rt cfg net sent b = Failed sent'))) \<longrightarrow>
    fst (processPayload rt cfg net sent raw) =
      Some \<lparr>body = raw, totalSaved = Fin 0, totalOriginal = PNum (Fin 0)\<rparr>) \<and>
   (json_parse rt raw = Some d \<and> js_get d ''messages'' = Some (JStr (c # cs)) \<longrightarrow>
    processPayload rt cfg net sent raw =
      (Some \<lparr>body = json_stringify rt d, totalSaved = Fin 0, totalOriginal = PNum (Fin 0)\<rparr>,
       sent))"
  using passes_through [of rt raw cfg net sent] string_messages [of rt raw d c cs cfg net sent]
  by blast

text \<open>The sample message, evaluated.\<close>

lemma process_msg_long:
  assumes "json_parse rt data = Some doc_reply_80_200" "rounded rt = Fin"
  shows "process_message rt cfg_default (replies data) (JObj msg_long) (Fin s) (PNum (Fin og)) sent =
    Done (JObj [(''role'', JStr ''user''), (''content'', JStr ''short'')])
      (Fin (s + 120)) (PNum (Fin (og + 200))) (sent @ [JStr text500])"
proof -
  have "map_of msg_long ''content'' = Some (JStr text500)"
    by (simp add: msg_long_def)
  moreover have "minTextLength cfg_default < int (length text500)"
    by (simp add: cfg_default_def text500_def)
  ultimately show ?thesis
    using recognised_msg_long assms
    by (simp add: process_message_string compress_into_def compress_text500 take_result_def
        prim_plus_def)
      (simp add: msg_long_def)
qed

lemma parse_rt_long_then_null:
  "json_parse rt_long_then_null raw_long_then_null = Some (JObj payload_long_then_null)"
  "json_parse rt_long_then_null raw_reply_80_200 = Some doc_reply_80_200"
  "rounded rt_long_then_null = Fin"
proof -
  have "raw_long_then_null \<noteq> raw_reply_80_200"
    by (simp add: raw_long_then_null_def raw_reply_80_200_def units_def)
  then show "json_parse rt_long_then_null raw_long_then_null = Some (JObj payload_long_then_null)"
    "json_parse rt_long_then_null raw_reply_80_200 = Some doc_reply_80_200"
    "rounded rt_long_then_null = Fin"
    by (simp_all add: rt_long_then_null_def rt_sample_def)
qed

text \<open>C3 on a body that is not JSON, a payload without messages, a null entry in the
  message list, a null entry after a message that was already compressed, and a payload
  whose \<^verbatim>\<open>messages\<close> is a string.\<close>

theorem processPayload_passes_through_witness:
  "fst (processPayload (rt_sample [] []) cfg_default (\<lambda>n t. Timeout) [] (units ''not json''))
     = Some \<lparr>body = units ''not json'', totalSaved = Fin 0, totalOriginal = PNum (Fin 0)\<rparr> \<and>
   no_messages doc_no_messages \<and>
   fst (processPayload (rt_sample [(raw_no_messages, doc_no_messages)] [])
          cfg_default (\<lambda>n t. Timeout) [] raw_no_messages)
     = Some \<lparr>body = raw_no_messages, totalSaved = Fin 0, totalOriginal = PNum (Fin 0)\<rparr> \<and>
   walk_payload (rt_sample [(raw_null_entry, JObj payload_null_entry)] [])
       cfg_default (\<lambda>n t. Timeout) [] (JObj payload_null_entry) = Failed [] \<and>
   fst (processPayload (rt_sample [(raw_null_entry, JObj payload_null_entry)] [])
          cfg_default (\<lambda>n t. Timeout) [] raw_null_entry)
     = Some \<lparr>body = raw_null_entry, totalSaved = Fin 0, totalOriginal = PNum (Fin 0)\<rparr> \<and>
   walk_payload rt_long_then_null cfg_default (replies raw_reply_80_200) []
       (JObj payload_long_then_null)
     = Failed [JStr text500] \<and>
   fst (processPayload rt_long_then_null cfg_default (replies raw_reply_80_200) []
          raw_long_then_null)
     = Some \<lparr>body = raw_long_then_null, totalSaved = Fin 0, totalOriginal = PNum (Fin 0)\<rparr> \<and>
   json_parse rt_messages_string raw_messages_string = Some doc_messages_string \<and>
   js_get doc_messages_string ''messages'' = Some (JStr ''see above'') \<and>
   processPayload rt_messages_string cfg_default (\<lambda>n t. Timeout) [] raw_messages_string
     = (Some \<lparr>body = json_stringify rt_messages_string doc_messages_string,
          totalSaved = Fin 0, totalOriginal = PNum (Fin 0)\<rparr>, [])"
proof -
  have w1: "walk_payload rt cfg_default net [] (JObj payload_null_entry) = Failed []"
    for rt net
    by (simp add: walk_payload_def payload_null_entry_def process_message_def)
  have w2: "walk_payload rt_long_then_null cfg_default (replies raw_reply_80_200) []
      (JObj payload_long_then_null) = Failed [JStr text500]"
    by (simp add: walk_payload_def payload_long_then_null_def process_msg_long
        parse_rt_long_then_null)
      (simp add: process_message_def)
  have n: "no_messages doc_no_messages"
    by (simp add: no_messages_def doc_no_messages_def)
  have s: "json_parse rt_messages_string raw_messages_string = Some doc_messages_string"
    "js_get doc_messages_string ''messages'' = Some (JStr ''see above'')"
    by (simp_all add: rt_messages_string_def rt_sample_def doc_messages_string_def)
  show ?thesis
    using
      processPayload_passes_through
        [where rt = "rt_sample [] []" and raw = "units ''not json''" and cfg = cfg_default
          and net = "\<lambda>n t. Timeout" and sent = "[]"]
      processPayload_passes_through
        [where rt = "rt_sample [(raw_no_messages, doc_no_messages)] []"
          and raw = raw_no_messages and cfg = cfg_default and net = "\<lambda>n t. Timeout"
          and sent = "[]"]
      processPayload_passes_through
        [where rt = "rt_sample [(raw_null_entry, JObj payload_null_entry)] []"
          and raw = raw_null_entry and cfg = cfg_default and net = "\<lambda>n t. Timeout"
          and sent = "[]"]
      processPayload_passes_through
        [where rt = rt_long_then_null and raw = raw_long_then_null and cfg = cfg_default
          and net = "replies raw_reply_80_200" and sent = "[]"]
      processPayload_passes_through
        [where rt = rt_messages_string and raw = raw_messages_string and cfg = cfg_default
          and net = "\<lambda>n t. Timeout" and sent = "[]" and d = doc_messages_string
          and c = "CHR ''s''" and cs = "''ee above''"]
      w1 w2 n s
    by (simp add: rt_sample_def parse_rt_long_then_null)
qed

lemma processPayload_b_cut:
  "processPayload rt_b cfg_default (\<lambda>n t. Cut) [] raw_b = (None, [JStr text500])"
proof -
  have "map_of msg_long ''content'' = Some (JStr text500)"
    by (simp add: msg_long_def)
  moreover have "minTextLength cfg_default < int (length text500)"
    by (simp add: cfg_default_def text500_def)
  ultimately have "process_message rt_b cfg_default (\<lambda>n t. Cut) (JObj msg_long)
      (Fin 0) (PNum (Fin 0)) [] = Hangs [JStr text500]"
    using recognised_msg_long
    by (simp add: process_message_string compress_into_def cut_response_never_settles)
  then have "walk_payload rt_b cfg_default (\<lambda>n t. Cut) [] (JObj payload_b)
      = Stuck [JStr text500]"
    by (simp add: walk_payload_def payload_b_def)
  then show ?thesis
    by (simp add: processPayload_def parse_rt_b)
qed

text \<open>
  C3 as stated returns the raw bytes for every payload without a message sequence, and
  never drops a request.  A payload whose \<^verbatim>\<open>messages\<close> is a non-empty string passes the
  guard \<^verbatim>\<open>!body.messages\<close>; the loop walks its characters, which have no role, and the
  payload is encoded again: the body returned is not the raw body.  And when the response
  of the compression service is cut after its headers, \<^verbatim>\<open>processPayload\<close> returns
  nothing.
\<close>

theorem string_messages_are_reencoded:
  "json_parse rt_messages_string raw_messages_string = Some doc_messages_string \<and>
   js_get doc_messages_string ''messages'' = Some (JStr ''see above'') \<and>
   processPayload rt_messages_string cfg_default (\<lambda>n t. Timeout) [] raw_messages_string
     = (Some \<lparr>body = raw_messages_string_out, totalSaved = Fin 0, totalOriginal = PNum (Fin 0)\<rparr>,
        []) \<and>
   raw_messages_string_out \<noteq> raw_messages_string \<and>
   processPayload rt_b cfg_default (\<lambda>n t. Cut) [] raw_b = (None, [JStr text500])"
proof -
  have "walk_payload rt_messages_string cfg_default (\<lambda>n t. Timeout) [] doc_messages_string
      = Rewritten doc_messages_string (Fin 0) (PNum (Fin 0)) []"
    by (simp add: walk_payload_def doc_messages_string_def)
  moreover have "raw_messages_string_out \<noteq> raw_messages_string"
    by (simp add: raw_messages_string_out_def raw_messages_string_def units_def)
  ultimately have "json_parse rt_messages_string raw_messages_string = Some doc_messages_string \<and>
   js_get doc_messages_string ''messages'' = Some (JStr ''see above'') \<and>
   processPayload rt_messages_string cfg_default (\<lambda>n t. Timeout) [] raw_messages_string
     = (Some \<lparr>body = raw_messages_string_out, totalSaved = Fin 0, totalOriginal = PNum (Fin 0)\<rparr>,
        []) \<and>
   raw_messages_string_out \<noteq> raw_messages_string"
    by (simp add: processPayload_def rt_messages_string_def rt_sample_def)
      (simp add: doc_messages_string_def)
  then show ?thesis
    by (simp add: processPayload_b_cut)
qed

subsection \<open>The payload transformer: when it returns\<close>

text \<open>
  The walk makes finitely many calls, so \<^verbatim>\<open>processPayload\<close> returns as soon as every
  call to the compression service settles, that is when no response of the service is cut
  after its headers.
\<close>

lemma settle_settles: "oc \<noteq> Cut \<Longrightarrow> settle rt t oc \<noteq> Unsettled"
  by (cases oc) simp_all

lemma compressText_settles:
  assumes "\<forall>n t. net n t \<noteq> Cut"
  shows "fst (compressText rt cfg net sent t) \<noteq> Unsettled"
  using assms by (simp add: compressText_def settle_settles split: verdict.splits)

lemma compress_into_returns:
  assumes "\<forall>n t. net n t \<noteq> Cut"
  shows "compress_into rt cfg net target k t s og sent \<noteq> Hangs sent'"
  using compressText_settles [OF assms, of rt cfg sent t]
  by (auto simp add: compress_into_def take_result_def
      split: prod.splits answer.splits option.splits)

lemma process_block_returns:
  assumes "\<forall>n t. net n t \<noteq> Cut"
  shows "process_block rt cfg net block s og sent \<noteq> Hangs sent'"
  using compress_into_returns [OF assms]
  by (simp add: process_block_def split: option.splits verdict.splits)

lemma process_blocks_returns:
  assumes "\<forall>n t. net n t \<noteq> Cut"
  shows "process_blocks rt cfg net bs s og sent \<noteq> Hangs sent'"
proof (induction bs arbitrary: s og sent)
  case Nil
  show ?case by simp
next
  case (Cons b bs)
  show ?case
    using process_block_returns [OF assms, of rt cfg b s og sent] Cons.IH
    by (auto split: step.splits)
qed

lemma process_message_returns:
  assumes "\<forall>n t. net n t \<noteq> Cut"
  shows "process_message rt cfg net msg s og sent \<noteq> Hangs sent'"
  using compress_into_returns [OF assms] process_blocks_returns [OF assms]
  by (auto simp add: process_message_def split: option.splits json.splits step.splits)

lemma process_messages_returns:
  assumes "\<forall>n t. net n t \<noteq> Cut"
  shows "process_messages rt cfg net ms s og sent \<noteq> Hangs sent'"
proof (induction ms arbitrary: s og sent)
  case Nil
  show ?case by simp
next
  case (Cons m ms)
  show ?case
    using process_message_returns [OF assms, of rt cfg m s og sent] Cons.IH
    by (auto split: step.splits)
qed

lemma processPayload_returns:
  assumes "\<forall>n t. net n t \<noteq> Cut"
  shows "fst (processPayload rt cfg net sent raw) \<noteq> None"
proof (cases "json_parse rt raw")
  case None
  then show ?thesis by (simp add: processPayload_def)
next
  case (Some b)
  have "walk_payload rt cfg net sent b \<noteq> Stuck sent'" for sent'
    using process_messages_returns [OF assms]
    by (auto simp add: walk_payload_def split: option.splits json.splits step.splits)
  then show ?thesis
    using Some by (cases "walk_payload rt cfg net sent b") (auto simp add: processPayload_def)
qed

subsection \<open>The payload transformer: what the walk leaves alone\<close>

lemma same_except_update:
  "map_of a k = Some v \<Longrightarrow> same_except k (JObj a) (JObj (AList.update k x a))"
proof (induction a)
  case Nil
  then show ?case by simp
next
  case (Cons p a)
  obtain k' v' where p: "p = (k', v')" by (cases p)
  show ?case
  proof (cases "k' = k")
    case True
    then show ?thesis using p by (simp add: list.rel_refl)
  next
    case False
    then show ?thesis using p Cons by simp
  qed
qed

lemma js_get_object:
  "js_get v k = Some x \<Longrightarrow> k \<noteq> ''length'' \<Longrightarrow> \<exists>kvs. v = JObj kvs \<and> map_of kvs k = Some x"
  by (cases v) (simp_all split: if_splits)

lemma js_get_set: "js_get (JObj kvs) k = Some x \<Longrightarrow> js_get (js_set (JObj kvs) k y) k = Some y"
  by (simp add: update_conv')

lemma same_except_set:
  "js_get v k = Some x \<Longrightarrow> k \<noteq> ''length'' \<Longrightarrow> same_except k v (js_set v k y)"
proof -
  assume g: "js_get v k = Some x" and k: "k \<noteq> ''length''"
  then obtain kvs where kvs: "v = JObj kvs" "map_of kvs k = Some x"
    using js_get_object [of v k x] by blast
  then show ?thesis
    using same_except_update [of kvs k x y] by (simp del: same_except.simps)
qed

lemma compress_into_done:
  "compress_into rt cfg net target k t s og sent = Done v s' og' sent' \<Longrightarrow>
    \<exists>y. v = js_set target k y"
  by (auto simp add: compress_into_def take_result_def
      split: prod.splits answer.splits option.splits)

lemma process_block_frame:
  assumes "process_block rt cfg net block s og sent = Done block' s' og' sent'"
  shows "block_frame rt cfg block block'"
proof (cases "eligible_block rt cfg block")
  case True
  then obtain t where t: "js_get block ''text'' = Some t"
    by (auto simp add: eligible_block_def split: option.splits)
  from True assms have "\<exists>y. block' = js_set block ''text'' y"
    by (auto simp add: process_block_def eligible_block_def
        split: option.splits verdict.splits if_splits dest: compress_into_done)
  then show ?thesis
    using True t same_except_set [of block "''text''" t] by (auto simp add: block_frame_def)
next
  case False
  with assms have "block' = block"
    by (auto simp add: process_block_def eligible_block_def
        split: option.splits verdict.splits answer.splits prod.splits if_splits)
  then show ?thesis using False by (simp add: block_frame_def)
qed

lemma process_blocks_frame:
  "process_blocks rt cfg net bs s og sent = Done bs' s' og' sent' \<Longrightarrow>
    list_all2 (block_frame rt cfg) bs bs'"
proof (induction bs arbitrary: bs' s og sent s' og' sent')
  case Nil
  then show ?case by simp
next
  case (Cons b bs)
  from Cons.prems obtain b1 s1 og1 sent1 bs1 where
    b1: "process_block rt cfg net b s og sent = Done b1 s1 og1 sent1" and
    bs1: "process_blocks rt cfg net bs s1 og1 sent1 = Done bs1 s' og' sent'" and
    eq: "bs' = b1 # bs1"
    by (auto split: step.splits)
  from b1 have "block_frame rt cfg b b1" by (rule process_block_frame)
  moreover from bs1 have "list_all2 (block_frame rt cfg) bs bs1" by (rule Cons.IH)
  ultimately show ?case using eq by simp
qed

lemma process_message_frame:
  assumes "process_message rt cfg net msg s og sent = Done msg' s' og' sent'"
  shows "msg_frame rt cfg msg msg'"
proof (cases "recognised msg")
  case False
  with assms have "msg' = msg"
    by (simp add: process_message_def split: if_splits)
  then show ?thesis using False by (simp add: msg_frame_def)
next
  case True
  then obtain r where "js_get msg ''role'' = Some r"
    by (auto simp add: recognised_def)
  then obtain kvs where kvs: "msg = JObj kvs"
    using js_get_object [of msg "''role''" r] by auto
  show ?thesis
  proof (cases "js_get msg ''content''")
    case None
    with assms True show ?thesis
      by (simp add: process_message_def msg_frame_def split: if_splits)
  next
    case (Some c)
    have se: "same_except ''content'' msg (js_set msg ''content'' y)" for y
      using Some same_except_set [of msg "''content''" c] by simp
    show ?thesis
    proof (cases c)
      case (JStr str)
      with assms True Some se show ?thesis
        by (auto simp add: process_message_def msg_frame_def
            split: if_splits dest: compress_into_done)
    next
      case (JArr bs)
      with assms True Some obtain bs1 where
        bs1: "process_blocks rt cfg net bs s og sent = Done bs1 s' og' sent'" and
        eq: "msg' = js_set msg ''content'' (JArr bs1)"
        by (auto simp add: process_message_def split: if_splits step.splits)
      from bs1 have "list_all2 (block_frame rt cfg) bs bs1" by (rule process_blocks_frame)
      moreover have "js_get msg' ''content'' = Some (JArr bs1)"
        using eq kvs Some js_get_set [of kvs "''content''" c] by simp
      ultimately show ?thesis
        using True Some JArr se eq by (simp add: msg_frame_def)
    qed (use assms True Some in
        \<open>simp_all add: process_message_def msg_frame_def split: if_splits\<close>)
  qed
qed

lemma process_messages_frame:
  "process_messages rt cfg net ms s og sent = Done ms' s' og' sent' \<Longrightarrow>
    list_all2 (msg_frame rt cfg) ms ms'"
proof (induction ms arbitrary: ms' s og sent s' og' sent')
  case Nil
  then show ?case by simp
next
  case (Cons m ms)
  from Cons.prems obtain m1 s1 og1 sent1 ms1 where
    m1: "process_message rt cfg net m s og sent = Done m1 s1 og1 sent1" and
    ms1: "process_messages rt cfg net ms s1 og1 sent1 = Done ms1 s' og' sent'" and
    eq: "ms' = m1 # ms1"
    by (auto split: step.splits)
  from m1 have "msg_frame rt cfg m m1" by (rule process_message_frame)
  moreover from ms1 have "list_all2 (msg_frame rt cfg) ms ms1" by (rule Cons.IH)
  ultimately show ?case using eq by simp
qed

lemma walk_payload_frame:
  assumes "walk_payload rt cfg net sent b = Rewritten b' s og sent'"
  shows "payload_frame rt cfg b b'"
proof (cases "js_get b ''messages''")
  case None
  with assms show ?thesis by (simp add: walk_payload_def split: if_splits)
next
  case (Some m)
  then obtain kvs where kvs: "b = JObj kvs"
    using js_get_object [of b "''messages''" m] by auto
  show ?thesis
  proof (cases m)
    case (JArr ms)
    with assms Some obtain ms1 where
      ms1: "process_messages rt cfg net ms (Fin 0) (PNum (Fin 0)) sent = Done ms1 s og sent'" and
      eq: "b' = js_set b ''messages'' (JArr ms1)"
      by (auto simp add: walk_payload_def split: if_splits step.splits)
    from ms1 have "list_all2 (msg_frame rt cfg) ms ms1" by (rule process_messages_frame)
    moreover have "js_get b' ''messages'' = Some (JArr ms1)"
      using eq kvs Some js_get_set [of kvs "''messages''" m] by simp
    moreover have "same_except ''messages'' b b'"
      using eq Some same_except_set [of b "''messages''" m] by simp
    ultimately show ?thesis using Some JArr by (simp add: payload_frame_def)
  qed (use assms Some in \<open>simp_all add: walk_payload_def payload_frame_def split: if_splits\<close>)
qed

lemma payload_framed:
  "fst (processPayload rt cfg net sent raw) = None \<or>
   fst (processPayload rt cfg net sent raw) = Some (passthrough raw) \<or>
   (\<exists>b b' r. json_parse rt raw = Some b \<and>
      fst (processPayload rt cfg net sent raw) = Some r \<and>
      body r = json_stringify rt b' \<and>
      payload_frame rt cfg b b' \<and>
      (json_parse rt (json_stringify rt b') = Some b' \<longrightarrow> json_parse rt (body r) = Some b'))"
proof (cases "json_parse rt raw")
  case None
  then show ?thesis by (simp add: processPayload_def)
next
  case (Some b)
  show ?thesis
  proof (cases "walk_payload rt cfg net sent b")
    case (Rewritten b' s og sent')
    then have fr: "payload_frame rt cfg b b'" by (rule walk_payload_frame)
    have r: "fst (processPayload rt cfg net sent raw) =
        Some \<lparr>body = json_stringify rt b', totalSaved = s, totalOriginal = og\<rparr>"
      using Some Rewritten by (simp add: processPayload_def)
    have "\<exists>b b' r. json_parse rt raw = Some b \<and>
      fst (processPayload rt cfg net sent raw) = Some r \<and>
      body r = json_stringify rt b' \<and>
      payload_frame rt cfg b b' \<and>
      (json_parse rt (json_stringify rt b') = Some b' \<longrightarrow> json_parse rt (body r) = Some b')"
      apply (rule exI [of _ b])
      apply (rule exI [of _ b'])
      apply (rule exI [of _ "\<lparr>body = json_stringify rt b', totalSaved = s, totalOriginal = og\<rparr>"])
      using Some fr r apply simp
      done
    then show ?thesis by simp
  qed (use Some in \<open>simp_all add: processPayload_def\<close>)
qed

text \<open>
  C4, as the code has it.  \<^verbatim>\<open>processPayload\<close> never returns, or returns the raw body
  itself, or returns \<^verbatim>\<open>JSON.stringify\<close> of a value that relates to the decoded payload by
  \<open>payload_frame\<close>: every top-level field but \<^verbatim>\<open>messages\<close> is the same value under the
  same key at the same place; the message list has the same length; a message that is not
  eligible is the same value; an eligible message keeps every field but \<^verbatim>\<open>content\<close>; a
  content array keeps its length, every block that is not eligible is the same value, and
  an eligible block keeps every field but \<^verbatim>\<open>text\<close>.  The bytes of the returned body are
  those the runtime writes for that value; where the runtime's \<^verbatim>\<open>JSON.parse\<close> reads back
  what its \<^verbatim>\<open>JSON.stringify\<close> wrote, the returned body decodes to that value.  It
  returns whenever no response of the compression service is cut after its headers.
\<close>

theorem processPayload_frame:
  "(fst (processPayload rt cfg net sent raw) = None \<or>
    fst (processPayload rt cfg net sent raw) = Some (passthrough raw) \<or>
    (\<exists>b b' r. json_parse rt raw = Some b \<and>
       fst (processPayload rt cfg net sent raw) = Some r \<and>
       body r = json_stringify rt b' \<and>
       payload_frame rt cfg b b' \<and>
       (json_parse rt (json_stringify rt b') = Some b' \<longrightarrow>
          json_parse rt (body r) = Some b'))) \<and>
   ((\<forall>n t. net n t \<noteq> Cut) \<longrightarrow> fst (processPayload rt cfg net sent raw) \<noteq> None)"
  using payload_framed [of rt cfg net sent raw] processPayload_returns [of net rt cfg sent raw]
  by blast

text \<open>The sample payloads, evaluated.\<close>

lemma length_text500: "length text500 = 500"
  by (simp add: text500_def)

lemma text500_nonempty: "text500 \<noteq> []"
  by (simp add: text500_def)

lemma short_not_text500: "''short'' \<noteq> text500"
proof
  assume "''short'' = text500"
  then have "length ''short'' = length text500" by (rule arg_cong)
  then show False by (simp add: length_text500)
qed

lemma text500_is_long:
  "js_less rt (min_length cfg_default) (text_length (JStr text500)) = Yes"
  by (simp add: text_length_JStr min_length_def length_text500 cfg_default_def js_less_def)

lemma hi_is_short:
  "js_less rt (min_length cfg_default) (text_length (JStr ''hi'')) = No"
  by (simp add: text_length_JStr min_length_def cfg_default_def js_less_def)

lemma process_blocks_c:
  assumes "json_parse rt data = Some doc_reply_80_200" "rounded rt = Fin"
  shows "process_blocks rt cfg_default (replies data) blocks_c (Fin s) (PNum (Fin og)) sent =
    Done blocks_c_short (Fin (s + 120)) (PNum (Fin (og + 200))) (sent @ [JStr text500])"
  using assms
  by (simp add: blocks_c_def blocks_c_short_def process_block_def text500_nonempty
      text500_is_long hi_is_short compress_into_def compress_text500 take_result_def
      prim_plus_def)

lemma process_messages_c:
  assumes "json_parse rt data = Some doc_reply_80_200" "rounded rt = Fin"
  shows "process_messages rt cfg_default (replies data) msgs_c (Fin 0) (PNum (Fin 0)) [] =
    Done msgs_c_short (Fin 120) (PNum (Fin 200)) [JStr text500]"
  using process_blocks_c [OF assms, of 0 0 "[]"]
  by (simp add: msgs_c_def msgs_c_short_def process_message_def recognised_def)

lemma parse_rt_c:
  "json_parse rt_c raw_reply_80_200 = Some doc_reply_80_200"
  "json_parse rt_c (units ''doc_c'') = Some doc_c"
  "json_parse rt_c (units ''doc_c_short'') = Some doc_c_short"
  "rounded rt_c = Fin"
  by (simp_all add: rt_c_def rt_sample_def raw_reply_80_200_def units_def)

lemma doc_c_short_not_doc_c: "doc_c_short \<noteq> doc_c"
  using short_not_text500
  by (simp add: doc_c_def doc_c_short_def msgs_c_def msgs_c_short_def blocks_c_def
      blocks_c_short_def)

lemma stringify_rt_c:
  "json_stringify rt_c doc_c_short = units ''doc_c_short''"
  "json_stringify rt_c doc_c = units ''doc_c''"
  using doc_c_short_not_doc_c by (simp_all add: rt_c_def rt_sample_def)

lemma processPayload_c:
  "processPayload rt_c cfg_default (replies raw_reply_80_200) [] (units ''doc_c'') =
    (Some \<lparr>body = units ''doc_c_short'', totalSaved = Fin 120, totalOriginal = PNum (Fin 200)\<rparr>,
     [JStr text500])"
proof -
  have "walk_payload rt_c cfg_default (replies raw_reply_80_200) [] doc_c =
      Rewritten doc_c_short (Fin 120) (PNum (Fin 200)) [JStr text500]"
    using process_messages_c [OF parse_rt_c(1) parse_rt_c(4)]
    by (simp add: walk_payload_def doc_c_def doc_c_short_def)
  then show ?thesis
    by (simp add: processPayload_def parse_rt_c stringify_rt_c)
qed

text \<open>C4 on the sample payload: only the long text of the user message changes; the system
  message, the image block, the short text block, \<^verbatim>\<open>cache_control\<close>, \<^verbatim>\<open>model\<close> and
  \<^verbatim>\<open>stream\<close> are as they were, also in what the returned body decodes to.\<close>

theorem processPayload_frame_witness:
  "json_parse rt_c (units ''doc_c'') = Some doc_c \<and>
   fst (processPayload rt_c cfg_default (replies raw_reply_80_200) [] (units ''doc_c''))
     = Some \<lparr>body = json_stringify rt_c doc_c_short, totalSaved = Fin 120,
         totalOriginal = PNum (Fin 200)\<rparr> \<and>
   payload_frame rt_c cfg_default doc_c doc_c_short \<and>
   doc_c_short \<noteq> doc_c \<and>
   json_parse rt_c (json_stringify rt_c doc_c_short) = Some doc_c_short \<and>
   (\<forall>n t. replies raw_reply_80_200 n t \<noteq> Cut)"
proof -
  have "\<not> recognised (JObj [(''role'', JStr ''system''), (''content'', JStr text500)])"
    by (simp add: recognised_def)
  moreover have "recognised (JObj [(''role'', JStr ''user''), (''content'', JArr blocks_c)])"
    by (simp add: recognised_def)
  moreover have "list_all2 (block_frame rt_c cfg_default) blocks_c blocks_c_short"
    by (simp add: blocks_c_def blocks_c_short_def block_frame_def eligible_block_def
        text500_nonempty text500_is_long hi_is_short)
  ultimately have pf: "payload_frame rt_c cfg_default doc_c doc_c_short"
    by (simp add: payload_frame_def doc_c_def doc_c_short_def msgs_c_def msgs_c_short_def
        msg_frame_def)
  show ?thesis
    using processPayload_frame
        [of rt_c cfg_default "replies raw_reply_80_200" "[]" "units ''doc_c''"]
      pf doc_c_short_not_doc_c
    by (simp add: processPayload_c parse_rt_c stringify_rt_c replies_def)
qed

text \<open>
  C4 as stated asks for the bytes of the input.  A payload with nothing to compress is
  still decoded and encoded again, and comes out as the runtime writes it: without the
  white space, and with \<^verbatim>\<open>1.0\<close> written \<^verbatim>\<open>1\<close>.  A number beyond the range of the
  doubles is decoded as \<^verbatim>\<open>Infinity\<close> and written \<^verbatim>\<open>null\<close>, so that a field the
  transformer does not touch comes out with another value.
\<close>

theorem reencoding_changes_bytes:
  "processPayload rt_temperature cfg_default (\<lambda>n t. Timeout) [] raw_temperature
     = (Some \<lparr>body = raw_temperature_out, totalSaved = Fin 0, totalOriginal = PNum (Fin 0)\<rparr>,
        []) \<and>
   raw_temperature_out \<noteq> raw_temperature \<and>
   processPayload rt_huge cfg_default (\<lambda>n t. Timeout) [] raw_huge
     = (Some \<lparr>body = raw_huge_out, totalSaved = Fin 0, totalOriginal = PNum (Fin 0)\<rparr>, []) \<and>
   json_parse rt_huge raw_huge = Some doc_huge \<and>
   json_parse rt_huge raw_huge_out = Some doc_huge_out \<and>
   js_get doc_huge ''x'' = Some (JNum PInf) \<and>
   js_get doc_huge_out ''x'' = Some JNull"
proof -
  have t: "raw_temperature_out \<noteq> raw_temperature"
    by (simp add: raw_temperature_def raw_temperature_out_def units_def)
  have h: "raw_huge \<noteq> raw_huge_out"
    by (simp add: raw_huge_def raw_huge_out_def units_def)
  have "processPayload rt_temperature cfg_default (\<lambda>n t. Timeout) [] raw_temperature
     = (Some \<lparr>body = raw_temperature_out, totalSaved = Fin 0, totalOriginal = PNum (Fin 0)\<rparr>,
        [])"
    by (simp add: processPayload_def walk_payload_def rt_temperature_def rt_sample_def
        doc_temperature_def)
  moreover
  have "processPayload rt_huge cfg_default (\<lambda>n t. Timeout) [] raw_huge
     = (Some \<lparr>body = raw_huge_out, totalSaved = Fin 0, totalOriginal = PNum (Fin 0)\<rparr>, [])"
    by (simp add: processPayload_def walk_payload_def rt_huge_def rt_sample_def doc_huge_def)
  ultimately show ?thesis
    using t h by (simp add: rt_huge_def rt_sample_def doc_huge_def doc_huge_out_def)
qed

subsection \<open>The payload transformer: inert parts and a second pass\<close>

lemma same_except_refl: "same_except k (JObj a) (JObj a)"
  by (simp add: list.rel_refl)

lemma block_frame_refl: "block_frame rt cfg block block"
proof (cases "eligible_block rt cfg block")
  case True
  then obtain a where "block = JObj a"
    using js_get_object [of block "''type''" "JStr ''text''"]
    by (auto simp add: eligible_block_def)
  then show ?thesis
    using same_except_refl [of "''text''" a] by (simp add: block_frame_def del: same_except.simps)
next
  case False
  then show ?thesis by (simp add: block_frame_def)
qed

lemma inert_not_eligible: "inert_block block \<Longrightarrow> \<not> eligible_block rt cfg block"
  by (auto simp add: inert_block_def eligible_block_def split: option.splits if_splits)

lemma short_not_eligible: "short_text cfg block \<Longrightarrow> \<not> eligible_block rt cfg block"
  by (auto simp add: short_text_def eligible_block_def text_length_JStr min_length_less
      split: option.splits json.splits)

lemma block_frame_same:
  "block_frame rt cfg block block' \<Longrightarrow> \<not> eligible_block rt cfg block \<Longrightarrow> block' = block"
  by (simp add: block_frame_def)

lemma msg_frame_inert:
  "msg_frame rt cfg msg msg' \<Longrightarrow> inert_message cfg msg \<Longrightarrow> msg' = msg"
  by (auto simp add: msg_frame_def inert_message_def split: if_splits option.splits json.splits)

lemma msg_frame_short:
  "msg_frame rt cfg msg msg' \<Longrightarrow> short_content cfg msg \<Longrightarrow> msg' = msg"
  by (auto simp add: msg_frame_def short_content_def split: if_splits option.splits json.splits)

lemma msg_frame_blocks:
  assumes "msg_frame rt cfg msg msg'" and "js_get msg ''content'' = Some (JArr bs)"
  shows "\<exists>bs'. js_get msg' ''content'' = Some (JArr bs') \<and>
    list_all2 (block_frame rt cfg) bs bs'"
proof (cases "recognised msg")
  case True
  with assms show ?thesis
    by (auto simp add: msg_frame_def split: option.splits json.splits)
next
  case False
  with assms have "msg' = msg" by (simp add: msg_frame_def)
  moreover have "list_all2 (block_frame rt cfg) bs bs"
    by (simp add: list.rel_refl block_frame_refl)
  ultimately show ?thesis using assms(2) by blast
qed

lemma processPayload_messages:
  assumes "json_parse rt raw = Some b" and "js_get b ''messages'' = Some (JArr ms)"
  shows "processPayload rt cfg net sent raw = (Some (passthrough raw), sent) \<or>
    (\<exists>sent'. process_messages rt cfg net ms (Fin 0) (PNum (Fin 0)) sent = Throws sent' \<and>
       processPayload rt cfg net sent raw = (Some (passthrough raw), sent')) \<or>
    (\<exists>sent'. process_messages rt cfg net ms (Fin 0) (PNum (Fin 0)) sent = Hangs sent' \<and>
       processPayload rt cfg net sent raw = (None, sent')) \<or>
    (\<exists>ms' s og sent'.
       process_messages rt cfg net ms (Fin 0) (PNum (Fin 0)) sent = Done ms' s og sent' \<and>
       processPayload rt cfg net sent raw =
         (Some \<lparr>body = json_stringify rt (js_set b ''messages'' (JArr ms')),
           totalSaved = s, totalOriginal = og\<rparr>, sent'))"
  using assms
  by (cases "process_messages rt cfg net ms (Fin 0) (PNum (Fin 0)) sent")
    (auto simp add: processPayload_def walk_payload_def)

lemma inert_message_done:
  "msg \<noteq> JNull \<Longrightarrow> inert_message cfg msg \<Longrightarrow>
    process_message rt cfg net msg s og sent = Done msg s og sent"
  by (auto simp add: process_message_def inert_message_def
      split: if_splits option.splits json.splits)

lemma inert_block_done:
  "block \<noteq> JNull \<Longrightarrow> inert_block block \<Longrightarrow>
    process_block rt cfg net block s og sent = Done block s og sent"
  by (auto simp add: process_block_def inert_block_def split: if_splits option.splits)

text \<open>
  The frame of the message list, read by index, for any property \<open>P\<close> of messages that
  the frame turns into equality and any property \<open>Q\<close> of blocks that excludes
  eligibility.
\<close>

lemma untouched_by_index:
  assumes dec: "json_parse rt raw = Some b" "js_get b ''messages'' = Some (JArr ms)"
    and P: "\<And>m m'. msg_frame rt cfg m m' \<Longrightarrow> P m \<Longrightarrow> m' = m"
    and Q: "\<And>blk. Q blk \<Longrightarrow> \<not> eligible_block rt cfg blk"
  shows "fst (processPayload rt cfg net sent raw) = None \<or>
      fst (processPayload rt cfg net sent raw) = Some (passthrough raw) \<or>
      (\<exists>ms'. map_option body (fst (processPayload rt cfg net sent raw))
              = Some (json_stringify rt (js_set b ''messages'' (JArr ms'))) \<and>
         length ms' = length ms \<and>
         (\<forall>i<length ms.
            (P (ms ! i) \<longrightarrow> ms' ! i = ms ! i) \<and>
            (\<forall>bs. js_get (ms ! i) ''content'' = Some (JArr bs) \<longrightarrow>
               (\<exists>bs'. js_get (ms' ! i) ''content'' = Some (JArr bs') \<and>
                  length bs' = length bs \<and>
                  (\<forall>j<length bs. Q (bs ! j) \<longrightarrow> bs' ! j = bs ! j)))))"
proof -
  from processPayload_messages [OF dec, of cfg net sent]
  consider "fst (processPayload rt cfg net sent raw) = None"
    | "fst (processPayload rt cfg net sent raw) = Some (passthrough raw)"
    | ms' s' og' sent' where
      "process_messages rt cfg net ms (Fin 0) (PNum (Fin 0)) sent = Done ms' s' og' sent'"
      "map_option body (fst (processPayload rt cfg net sent raw))
        = Some (json_stringify rt (js_set b ''messages'' (JArr ms')))"
    by auto
  then show ?thesis
  proof cases
    case 1
    then show ?thesis by simp
  next
    case 2
    then show ?thesis by simp
  next
    case 3
    from 3(1) have fr: "list_all2 (msg_frame rt cfg) ms ms'"
      by (rule process_messages_frame)
    then have len: "length ms' = length ms"
      by (simp add: list_all2_lengthD)
    have each: "(P (ms ! i) \<longrightarrow> ms' ! i = ms ! i) \<and>
        (\<forall>bs. js_get (ms ! i) ''content'' = Some (JArr bs) \<longrightarrow>
           (\<exists>bs'. js_get (ms' ! i) ''content'' = Some (JArr bs') \<and>
              length bs' = length bs \<and>
              (\<forall>j<length bs. Q (bs ! j) \<longrightarrow> bs' ! j = bs ! j)))"
      if i: "i < length ms" for i
    proof -
      from fr i have mf: "msg_frame rt cfg (ms ! i) (ms' ! i)"
        by (simp add: list_all2_nthD)
      have blocks: "\<exists>bs'. js_get (ms' ! i) ''content'' = Some (JArr bs') \<and>
          length bs' = length bs \<and>
          (\<forall>j<length bs. Q (bs ! j) \<longrightarrow> bs' ! j = bs ! j)"
        if c: "js_get (ms ! i) ''content'' = Some (JArr bs)" for bs
      proof -
        from msg_frame_blocks [OF mf c] obtain bs' where
          g: "js_get (ms' ! i) ''content'' = Some (JArr bs')" and
          bf: "list_all2 (block_frame rt cfg) bs bs'"
          by blast
        have "bs' ! j = bs ! j" if "j < length bs" "Q (bs ! j)" for j
          using that bf block_frame_same [of rt cfg "bs ! j" "bs' ! j"] Q [of "bs ! j"]
          by (simp add: list_all2_nthD)
        then show ?thesis
          using g bf by (auto simp add: list_all2_lengthD)
      qed
      from mf show ?thesis
        using P [of "ms ! i" "ms' ! i"] blocks by blast
    qed
    from 3(2) len each show ?thesis by blast
  qed
qed

text \<open>
  C10.  The walk returns a message as it is, with the totals and the texts sent as they
  were and without throwing, when the message is not null and its role is not exactly
  \<^verbatim>\<open>"user"\<close> or \<^verbatim>\<open>"assistant"\<close>, or its content is neither a string nor an array, or
  its content is a string not longer than the threshold; and it returns a block as it is
  when the block is not null and its type is not \<^verbatim>\<open>"text"\<close> or its text is absent or
  empty.  For a decoded payload with a message list, \<^verbatim>\<open>processPayload\<close> never returns
  (a compression call on some other text never settled), or returns the raw body as it
  came (so also when a null entry made the walk throw), or the encoding of the
  payload with a message list of the same length in which each such message is the value
  it was, and each content array has the length it had and each such block is the value
  it was.  It returns whenever no response of the compression service is cut after its
  headers.
\<close>

theorem transform_leaves_inert_parts:
  "(msg \<noteq> JNull \<and> inert_message cfg msg \<longrightarrow>
      process_message rt cfg net msg s og sent = Done msg s og sent) \<and>
   (block \<noteq> JNull \<and> inert_block block \<longrightarrow>
      process_block rt cfg net block s og sent = Done block s og sent) \<and>
   (json_parse rt raw = Some b \<and> js_get b ''messages'' = Some (JArr ms) \<longrightarrow>
      fst (processPayload rt cfg net sent raw) = None \<or>
      fst (processPayload rt cfg net sent raw) = Some (passthrough raw) \<or>
      (\<exists>ms'. map_option body (fst (processPayload rt cfg net sent raw))
              = Some (json_stringify rt (js_set b ''messages'' (JArr ms'))) \<and>
         length ms' = length ms \<and>
         (\<forall>i<length ms.
            (inert_message cfg (ms ! i) \<longrightarrow> ms' ! i = ms ! i) \<and>
            (\<forall>bs. js_get (ms ! i) ''content'' = Some (JArr bs) \<longrightarrow>
               (\<exists>bs'. js_get (ms' ! i) ''content'' = Some (JArr bs') \<and>
                  length bs' = length bs \<and>
                  (\<forall>j<length bs. inert_block (bs ! j) \<longrightarrow> bs' ! j = bs ! j)))))) \<and>
   ((\<forall>n t. net n t \<noteq> Cut) \<longrightarrow> fst (processPayload rt cfg net sent raw) \<noteq> None)"
proof -
  have "fst (processPayload rt cfg net sent raw) = None \<or>
      fst (processPayload rt cfg net sent raw) = Some (passthrough raw) \<or>
      (\<exists>ms'. map_option body (fst (processPayload rt cfg net sent raw))
              = Some (json_stringify rt (js_set b ''messages'' (JArr ms'))) \<and>
         length ms' = length ms \<and>
         (\<forall>i<length ms.
            (inert_message cfg (ms ! i) \<longrightarrow> ms' ! i = ms ! i) \<and>
            (\<forall>bs. js_get (ms ! i) ''content'' = Some (JArr bs) \<longrightarrow>
               (\<exists>bs'. js_get (ms' ! i) ''content'' = Some (JArr bs') \<and>
                  length bs' = length bs \<and>
                  (\<forall>j<length bs. inert_block (bs ! j) \<longrightarrow> bs' ! j = bs ! j)))))"
    if dec: "json_parse rt raw = Some b" "js_get b ''messages'' = Some (JArr ms)"
  proof (rule untouched_by_index [where P = "inert_message cfg" and Q = inert_block, OF dec])
    show "m' = m" if "msg_frame rt cfg m m'" "inert_message cfg m" for m m'
      using that by (rule msg_frame_inert)
    show "\<not> eligible_block rt cfg blk" if "inert_block blk" for blk
      using that by (rule inert_not_eligible)
  qed
  then show ?thesis
    using inert_message_done [of msg cfg rt net s og sent]
      inert_block_done [of block rt cfg net s og sent]
      processPayload_returns [of net rt cfg sent raw]
    by blast
qed

text \<open>Messages the walk has nothing to do on.\<close>

lemma inert_samples:
  "inert_message cfg_default (JObj [(''role'', JStr ''system''), (''content'', JStr text500)])"
  "inert_message cfg_default (JObj [(''role'', JStr ''user''), (''content'', JNull)])"
  "inert_message cfg_default (JObj [(''role'', JStr ''user''), (''content'', JNum (Fin 7))])"
  "inert_message cfg_default (JObj [(''role'', JStr ''user''), (''content'', JStr ''hi'')])"
  "inert_block (JObj [(''type'', JStr ''image''), (''source'', JObj [(''data'', JStr text500)])])"
  "inert_block (JObj [(''type'', JStr ''text''), (''text'', JStr [])])"
  "inert_block (JObj [(''type'', JStr ''text'')])"
  by (simp_all add: inert_message_def inert_block_def recognised_def cfg_default_def)

text \<open>C10 on a system message, on contents null, 7 and a short string, on an image
  block, a block with the empty text and a block without text, and on the sample
  payload.\<close>

theorem transform_leaves_inert_parts_witness:
  "process_message rt_c cfg_default (replies raw_reply_80_200)
      (JObj [(''role'', JStr ''system''), (''content'', JStr text500)]) (Fin 0) (PNum (Fin 0)) []
     = Done (JObj [(''role'', JStr ''system''), (''content'', JStr text500)])
         (Fin 0) (PNum (Fin 0)) [] \<and>
   process_message rt_c cfg_default (replies raw_reply_80_200)
      (JObj [(''role'', JStr ''user''), (''content'', JNull)]) (Fin 0) (PNum (Fin 0)) []
     = Done (JObj [(''role'', JStr ''user''), (''content'', JNull)]) (Fin 0) (PNum (Fin 0)) [] \<and>
   process_message rt_c cfg_default (replies raw_reply_80_200)
      (JObj [(''role'', JStr ''user''), (''content'', JNum (Fin 7))]) (Fin 0) (PNum (Fin 0)) []
     = Done (JObj [(''role'', JStr ''user''), (''content'', JNum (Fin 7))])
         (Fin 0) (PNum (Fin 0)) [] \<and>
   process_message rt_c cfg_default (replies raw_reply_80_200)
      (JObj [(''role'', JStr ''user''), (''content'', JStr ''hi'')]) (Fin 0) (PNum (Fin 0)) []
     = Done (JObj [(''role'', JStr ''user''), (''content'', JStr ''hi'')])
         (Fin 0) (PNum (Fin 0)) [] \<and>
   process_block rt_c cfg_default (replies raw_reply_80_200)
      (JObj [(''type'', JStr ''image''), (''source'', JObj [(''data'', JStr text500)])])
      (Fin 0) (PNum (Fin 0)) []
     = Done (JObj [(''type'', JStr ''image''), (''source'', JObj [(''data'', JStr text500)])])
         (Fin 0) (PNum (Fin 0)) [] \<and>
   process_block rt_c cfg_default (replies raw_reply_80_200)
      (JObj [(''type'', JStr ''text''), (''text'', JStr [])]) (Fin 0) (PNum (Fin 0)) []
     = Done (JObj [(''type'', JStr ''text''), (''text'', JStr [])]) (Fin 0) (PNum (Fin 0)) [] \<and>
   process_block rt_c cfg_default (replies raw_reply_80_200)
      (JObj [(''type'', JStr ''text'')]) (Fin 0) (PNum (Fin 0)) []
     = Done (JObj [(''type'', JStr ''text'')]) (Fin 0) (PNum (Fin 0)) [] \<and>
   map_option body
     (fst (processPayload rt_c cfg_default (replies raw_reply_80_200) [] (units ''doc_c'')))
     = Some (json_stringify rt_c (js_set doc_c ''messages'' (JArr msgs_c_short))) \<and>
   msgs_c_short ! 0 = msgs_c ! 0 \<and>
   blocks_c_short ! 0 = blocks_c ! 0 \<and>
   (\<forall>n t. replies raw_reply_80_200 n t \<noteq> Cut)"
proof -
  let ?net = "replies raw_reply_80_200"
  let ?z = "Fin 0"
  let ?o = "PNum (Fin 0)"
  let ?sys = "JObj [(''role'', JStr ''system''), (''content'', JStr text500)]"
  let ?image = "JObj [(''type'', JStr ''image''), (''source'', JObj [(''data'', JStr text500)])]"
  have dec: "json_parse rt_c (units ''doc_c'') = Some doc_c"
    "js_get doc_c ''messages'' = Some (JArr msgs_c)"
    by (simp_all add: parse_rt_c) (simp add: doc_c_def)
  have out: "js_set doc_c ''messages'' (JArr msgs_c_short) = doc_c_short"
    by (simp add: doc_c_def doc_c_short_def)
  have idx: "msgs_c_short ! 0 = msgs_c ! 0" "blocks_c_short ! 0 = blocks_c ! 0"
    by (simp_all add: msgs_c_def msgs_c_short_def blocks_c_def blocks_c_short_def)
  note t = transform_leaves_inert_parts [where cfg = cfg_default and rt = rt_c and net = ?net
      and s = ?z and og = ?o and sent = "[]" and raw = "units ''doc_c''" and b = doc_c
      and ms = msgs_c]
  have m1: "process_message rt_c cfg_default ?net ?sys ?z ?o [] = Done ?sys ?z ?o []"
    and b1: "process_block rt_c cfg_default ?net ?image ?z ?o [] = Done ?image ?z ?o []"
    using t [where msg = ?sys and block = ?image] inert_samples by simp_all
  have m2: "process_message rt_c cfg_default ?net
        (JObj [(''role'', JStr ''user''), (''content'', JNull)]) ?z ?o []
      = Done (JObj [(''role'', JStr ''user''), (''content'', JNull)]) ?z ?o []"
    and b2: "process_block rt_c cfg_default ?net
        (JObj [(''type'', JStr ''text''), (''text'', JStr [])]) ?z ?o []
      = Done (JObj [(''type'', JStr ''text''), (''text'', JStr [])]) ?z ?o []"
    using t [where msg = "JObj [(''role'', JStr ''user''), (''content'', JNull)]"
        and block = "JObj [(''type'', JStr ''text''), (''text'', JStr [])]"] inert_samples
    by simp_all
  have m3: "process_message rt_c cfg_default ?net
        (JObj [(''role'', JStr ''user''), (''content'', JNum (Fin 7))]) ?z ?o []
      = Done (JObj [(''role'', JStr ''user''), (''content'', JNum (Fin 7))]) ?z ?o []"
    and b3: "process_block rt_c cfg_default ?net (JObj [(''type'', JStr ''text'')]) ?z ?o []
      = Done (JObj [(''type'', JStr ''text'')]) ?z ?o []"
    using t [where msg = "JObj [(''role'', JStr ''user''), (''content'', JNum (Fin 7))]"
        and block = "JObj [(''type'', JStr ''text'')]"] inert_samples
    by simp_all
  have m4: "process_message rt_c cfg_default ?net
        (JObj [(''role'', JStr ''user''), (''content'', JStr ''hi'')]) ?z ?o []
      = Done (JObj [(''role'', JStr ''user''), (''content'', JStr ''hi'')]) ?z ?o []"
    using t [where msg = "JObj [(''role'', JStr ''user''), (''content'', JStr ''hi'')]"
        and block = JNull] inert_samples
    by simp
  have p: "map_option body (fst (processPayload rt_c cfg_default ?net [] (units ''doc_c'')))
      = Some (json_stringify rt_c (js_set doc_c ''messages'' (JArr msgs_c_short)))"
    by (simp add: processPayload_c out stringify_rt_c)
  from m1 m2 m3 m4 b1 b2 b3 p idx show ?thesis by (simp add: replies_def)
qed

lemma block_not_eligible:
  "\<not> eligible_block rt cfg block \<Longrightarrow>
    process_block rt cfg net block s og sent = Throws sent \<or>
    process_block rt cfg net block s og sent = Done block s og sent"
  by (auto simp add: process_block_def eligible_block_def
      split: option.splits verdict.splits)

lemma blocks_not_eligible:
  "list_all (\<lambda>block. \<not> eligible_block rt cfg block) bs \<Longrightarrow>
    process_blocks rt cfg net bs s og sent = Throws sent \<or>
    process_blocks rt cfg net bs s og sent = Done bs s og sent"
proof (induction bs)
  case Nil
  then show ?case by simp
next
  case (Cons b bs)
  then have b: "\<not> eligible_block rt cfg b" and
    bs: "process_blocks rt cfg net bs s og sent = Throws sent \<or>
      process_blocks rt cfg net bs s og sent = Done bs s og sent"
    by simp_all
  from block_not_eligible [OF b, of net s og sent] bs show ?case
    by auto
qed

lemma message_settled:
  assumes "settled_message rt cfg msg"
  shows "process_message rt cfg net msg s og sent = Throws sent \<or>
    process_message rt cfg net msg s og sent = Done msg s og sent"
proof (cases "msg \<noteq> JNull \<and> recognised msg")
  case False
  then show ?thesis by (auto simp add: process_message_def)
next
  case True
  then obtain r where "js_get msg ''role'' = Some r"
    by (auto simp add: recognised_def)
  then obtain kvs where kvs: "msg = JObj kvs"
    using js_get_object [of msg "''role''" r] by auto
  show ?thesis
  proof (cases "js_get msg ''content''")
    case None
    with True show ?thesis by (simp add: process_message_def)
  next
    case (Some c)
    show ?thesis
    proof (cases c)
      case (JStr str)
      with assms True Some show ?thesis
        by (simp add: process_message_def settled_message_def)
    next
      case (JArr bs)
      with assms True Some have "list_all (\<lambda>block. \<not> eligible_block rt cfg block) bs"
        by (simp add: settled_message_def)
      from blocks_not_eligible [OF this, of net s og sent]
      show ?thesis
      proof
        assume "process_blocks rt cfg net bs s og sent = Throws sent"
        with True Some JArr show ?thesis by (simp add: process_message_def)
      next
        assume d: "process_blocks rt cfg net bs s og sent = Done bs s og sent"
        have "js_set msg ''content'' (JArr bs) = msg"
          using kvs Some JArr by (simp add: update_triv)
        with d True Some JArr show ?thesis by (simp add: process_message_def)
      qed
    qed (use True Some in \<open>simp_all add: process_message_def\<close>)
  qed
qed

lemma messages_settled:
  "settled rt cfg ms \<Longrightarrow>
    process_messages rt cfg net ms s og sent = Throws sent \<or>
    process_messages rt cfg net ms s og sent = Done ms s og sent"
proof (induction ms)
  case Nil
  then show ?case by simp
next
  case (Cons m ms)
  then have m: "settled_message rt cfg m" and
    ms: "process_messages rt cfg net ms s og sent = Throws sent \<or>
      process_messages rt cfg net ms s og sent = Done ms s og sent"
    by (simp_all add: settled_def)
  from message_settled [OF m, of net s og sent] ms show ?case
    by auto
qed

lemma processPayload_settled:
  assumes dec: "json_parse rt raw = Some b" "js_get b ''messages'' = Some (JArr ms)"
    and st: "settled rt cfg ms"
  shows "processPayload rt cfg net sent raw = (Some (passthrough raw), sent) \<or>
    processPayload rt cfg net sent raw =
      (Some \<lparr>body = json_stringify rt b, totalSaved = Fin 0, totalOriginal = PNum (Fin 0)\<rparr>,
       sent)"
proof -
  obtain kvs where kvs: "b = JObj kvs" "map_of kvs ''messages'' = Some (JArr ms)"
    using dec(2) js_get_object [of b "''messages''" "JArr ms"] by auto
  then have same: "js_set b ''messages'' (JArr ms) = b"
    by (simp add: update_triv)
  from messages_settled [OF st, of net "Fin 0" "PNum (Fin 0)" sent]
    processPayload_messages [OF dec, of cfg net sent]
  show ?thesis using same by auto
qed

text \<open>
  C9.  Whatever payload is handed to the transformer, in particular one that it returned
  before: the pass never returns (a compression call on a text that is still longer than
  the threshold never settled), or the result is the raw body as it came, or the encoding
  of the payload in which
  every message with a string content that does not exceed the threshold is the value it
  was, and in every content array every block with a string text that does not exceed the
  threshold is the value it was.  When no text of the payload exceeds the threshold,
  nothing is sent to the service, the totals are zero, and the body is the raw body or
  the encoding of the decoded payload itself.  The pass returns whenever no response of
  the compression service is cut after its headers.
\<close>

theorem second_pass_leaves_short_texts:
  assumes dec: "json_parse rt raw = Some b" "js_get b ''messages'' = Some (JArr ms)"
  shows "(fst (processPayload rt cfg net sent raw) = None \<or>
      fst (processPayload rt cfg net sent raw) = Some (passthrough raw) \<or>
      (\<exists>ms'. map_option body (fst (processPayload rt cfg net sent raw))
              = Some (json_stringify rt (js_set b ''messages'' (JArr ms'))) \<and>
         length ms' = length ms \<and>
         (\<forall>i<length ms.
            (short_content cfg (ms ! i) \<longrightarrow> ms' ! i = ms ! i) \<and>
            (\<forall>bs. js_get (ms ! i) ''content'' = Some (JArr bs) \<longrightarrow>
               (\<exists>bs'. js_get (ms' ! i) ''content'' = Some (JArr bs') \<and>
                  length bs' = length bs \<and>
                  (\<forall>j<length bs. short_text cfg (bs ! j) \<longrightarrow> bs' ! j = bs ! j)))))) \<and>
    (settled rt cfg ms \<longrightarrow>
       processPayload rt cfg net sent raw = (Some (passthrough raw), sent) \<or>
       processPayload rt cfg net sent raw =
         (Some \<lparr>body = json_stringify rt b, totalSaved = Fin 0,
            totalOriginal = PNum (Fin 0)\<rparr>, sent)) \<and>
    ((\<forall>n t. net n t \<noteq> Cut) \<longrightarrow> fst (processPayload rt cfg net sent raw) \<noteq> None)"
proof (intro conjI)
  show "fst (processPayload rt cfg net sent raw) = None \<or>
      fst (processPayload rt cfg net sent raw) = Some (passthrough raw) \<or>
      (\<exists>ms'. map_option body (fst (processPayload rt cfg net sent raw))
              = Some (json_stringify rt (js_set b ''messages'' (JArr ms'))) \<and>
         length ms' = length ms \<and>
         (\<forall>i<length ms.
            (short_content cfg (ms ! i) \<longrightarrow> ms' ! i = ms ! i) \<and>
            (\<forall>bs. js_get (ms ! i) ''content'' = Some (JArr bs) \<longrightarrow>
               (\<exists>bs'. js_get (ms' ! i) ''content'' = Some (JArr bs') \<and>
                  length bs' = length bs \<and>
                  (\<forall>j<length bs. short_text cfg (bs ! j) \<longrightarrow> bs' ! j = bs ! j)))))"
  proof (rule untouched_by_index [where P = "short_content cfg" and Q = "short_text cfg", OF dec])
    show "m' = m" if "msg_frame rt cfg m m'" "short_content cfg m" for m m'
      using that by (rule msg_frame_short)
    show "\<not> eligible_block rt cfg blk" if "short_text cfg blk" for blk
      using that by (rule short_not_eligible)
  qed
  show "settled rt cfg ms \<longrightarrow>
       processPayload rt cfg net sent raw = (Some (passthrough raw), sent) \<or>
       processPayload rt cfg net sent raw =
         (Some \<lparr>body = json_stringify rt b, totalSaved = Fin 0,
            totalOriginal = PNum (Fin 0)\<rparr>, sent)"
    using processPayload_settled [OF dec, of cfg net sent] by blast
  show "(\<forall>n t. net n t \<noteq> Cut) \<longrightarrow> fst (processPayload rt cfg net sent raw) \<noteq> None"
    using processPayload_returns [of net rt cfg sent raw] by blast
qed

text \<open>C9 on two passes over the sample payload with the same settings: the first replaces
  the long text, the second sends nothing and returns what it was given.\<close>

lemma settled_msgs_c_short: "settled rt_c cfg_default msgs_c_short"
  by (simp add: settled_def settled_message_def msgs_c_short_def blocks_c_short_def
      recognised_def eligible_block_def text_length_JStr min_length_def cfg_default_def
      js_less_def)

theorem second_pass_leaves_short_texts_witness:
  "processPayload rt_c cfg_default (replies raw_reply_80_200) [] (units ''doc_c'')
     = (Some \<lparr>body = units ''doc_c_short'', totalSaved = Fin 120,
          totalOriginal = PNum (Fin 200)\<rparr>, [JStr text500]) \<and>
   json_parse rt_c (units ''doc_c_short'') = Some doc_c_short \<and>
   js_get doc_c_short ''messages'' = Some (JArr msgs_c_short) \<and>
   settled rt_c cfg_default msgs_c_short \<and>
   processPayload rt_c cfg_default (replies raw_reply_80_200) [JStr text500]
       (units ''doc_c_short'')
     = (Some \<lparr>body = units ''doc_c_short'', totalSaved = Fin 0, totalOriginal = PNum (Fin 0)\<rparr>,
        [JStr text500]) \<and>
   (\<forall>n t. replies raw_reply_80_200 n t \<noteq> Cut)"
proof -
  have dec: "json_parse rt_c (units ''doc_c_short'') = Some doc_c_short"
    "js_get doc_c_short ''messages'' = Some (JArr msgs_c_short)"
    by (simp_all add: parse_rt_c) (simp add: doc_c_short_def)
  have "processPayload rt_c cfg_default (replies raw_reply_80_200) [JStr text500]
      (units ''doc_c_short'') = (Some (passthrough (units ''doc_c_short'')), [JStr text500]) \<or>
    processPayload rt_c cfg_default (replies raw_reply_80_200) [JStr text500]
      (units ''doc_c_short'') =
      (Some \<lparr>body = json_stringify rt_c doc_c_short, totalSaved = Fin 0,
         totalOriginal = PNum (Fin 0)\<rparr>, [JStr text500])"
    using second_pass_leaves_short_texts [OF dec, of cfg_default "replies raw_reply_80_200"
        "[JStr text500]"] settled_msgs_c_short
    by blast
  then have "processPayload rt_c cfg_default (replies raw_reply_80_200) [JStr text500]
      (units ''doc_c_short'') =
      (Some \<lparr>body = units ''doc_c_short'', totalSaved = Fin 0, totalOriginal = PNum (Fin 0)\<rparr>,
       [JStr text500])"
    by (auto simp add: stringify_rt_c passthrough_def)
  then show ?thesis
    using dec settled_msgs_c_short by (simp add: processPayload_c replies_def)
qed

subsection \<open>The front end and the forwarder\<close>

lemma handleRequest_requests:
  "requests (new_stats (handleRequest rt cfg net up st req)) = Suc (requests st)"
  by (simp add: handleRequest_def Let_def split: prod.splits option.splits)

text \<open>
  C6.  Every inbound request increases the lifetime request counter by exactly 1, whatever
  the request is, whatever the transformer and the compression service do, and whatever
  the upstream answers.
\<close>

theorem request_counter:
  "requests (new_stats (handleRequest rt cfg net up st req)) = requests st + 1"
  using handleRequest_requests [of rt cfg net up st req] by simp

lemma handleRequest_eligible:
  assumes "isMessagesEndpoint req" "body_present (collect rt req)"
    and "processPayload rt cfg net [] (utf8_decode rt (concat (chunks req))) = (Some result, sent)"
  shows "handleRequest rt cfg net up st req =
    \<lparr>new_stats =
       \<lparr>requests = requests st + 1,
        compressed =
          (if num_less (Fin 0) (totalSaved result) then compressed st + 1 else compressed st),
        tokensSaved = num_add rt (tokensSaved st) (totalSaved result),
        originalTokens = prim_plus rt (originalTokens st) (totalOriginal result)\<rparr>,
     texts_sent = sent,
     upstream_request = Some (fst (forwardToAnthropic rt cfg up (req_method req) (req_url req)
        (req_headers req) (Some (body result)))),
     response = Some (snd (forwardToAnthropic rt cfg up (req_method req) (req_url req)
        (req_headers req) (Some (body result))))\<rparr>"
  using assms by (simp add: handleRequest_def Let_def)

lemma handleRequest_stuck:
  assumes "isMessagesEndpoint req" "body_present (collect rt req)"
    and "processPayload rt cfg net [] (utf8_decode rt (concat (chunks req))) = (None, sent)"
  shows "handleRequest rt cfg net up st req =
    \<lparr>new_stats = st\<lparr>requests := requests st + 1\<rparr>, texts_sent = sent,
     upstream_request = None, response = None\<rparr>"
  using assms by (simp add: handleRequest_def Let_def)

lemma handleRequest_other:
  assumes "\<not> (isMessagesEndpoint req \<and> body_present (collect rt req))"
  shows "handleRequest rt cfg net up st req =
    \<lparr>new_stats = st\<lparr>requests := requests st + 1\<rparr>,
     texts_sent = [],
     upstream_request = Some (fst (forwardToAnthropic rt cfg up (req_method req) (req_url req)
        (req_headers req) (collect rt req))),
     response = Some (snd (forwardToAnthropic rt cfg up (req_method req) (req_url req)
        (req_headers req) (collect rt req)))\<rparr>"
proof -
  have "(if isMessagesEndpoint req \<and> body_present (collect rt req) then x else y) = y"
    for x y :: handled
    using assms by (rule if_not_P)
  then show ?thesis by (simp add: handleRequest_def Let_def)
qed

lemma written_forward:
  "written (fst (forwardToAnthropic rt cfg up m p hdrs b)) = (if body_present b then b else None)"
  by (simp add: forwardToAnthropic_def Let_def)

lemma present_collect:
  "body_present (collect rt req) \<longleftrightarrow>
    chunks req \<noteq> [] \<and> utf8_decode rt (concat (chunks req)) \<noteq> []"
  by (simp add: collect_def body_present_def)

text \<open>
  C5, as the code has it.  The body the code works on is the text that decoding the
  received bytes as UTF-8 gives.  When the method is \<^verbatim>\<open>POST\<close>, the path contains
  \<^verbatim>\<open>/messages\<close> and this text is present and not empty, \<^verbatim>\<open>processPayload\<close> is run on
  it and the texts sent to the compression service are those it sends; if it never
  returns, nothing is forwarded and the totals stay as they are; if it returns, the body
  written upstream is the body it returns, its totals are added to the lifetime totals
  with JavaScript's \<^verbatim>\<open>+\<close>, and the compressed-request counter goes up by one exactly
  when \<open>totalSaved\<close> is positive.  For every other request nothing is sent to the
  compression service, the lifetime totals and the compressed-request counter stay as
  they are, and the body written upstream is the decoded text, which goes out encoded in
  UTF-8: these are the bytes received when encoding the decoded text gives them back.
  Every request is forwarded and answered when no response of the compression service is
  cut after its headers.
\<close>

theorem handleRequest_transforms_iff_eligible:
  assumes h: "h = handleRequest rt cfg net up st req"
    and rc: "received = utf8_decode rt (concat (chunks req))"
  shows "(isMessagesEndpoint req \<and> chunks req \<noteq> [] \<and> received \<noteq> [] \<longrightarrow>
      texts_sent h = snd (processPayload rt cfg net [] received) \<and>
      (case fst (processPayload rt cfg net [] received) of
         None \<Rightarrow>
           upstream_request h = None \<and> response h = None \<and>
           tokensSaved (new_stats h) = tokensSaved st \<and>
           originalTokens (new_stats h) = originalTokens st \<and>
           compressed (new_stats h) = compressed st
       | Some result \<Rightarrow>
           map_option written (upstream_request h)
             = Some (if body result \<noteq> [] then Some (body result) else None) \<and>
           tokensSaved (new_stats h) = num_add rt (tokensSaved st) (totalSaved result) \<and>
           originalTokens (new_stats h)
             = prim_plus rt (originalTokens st) (totalOriginal result) \<and>
           compressed (new_stats h)
             = (if num_less (Fin 0) (totalSaved result) then compressed st + 1
                else compressed st))) \<and>
    (\<not> (isMessagesEndpoint req \<and> chunks req \<noteq> [] \<and> received \<noteq> []) \<longrightarrow>
       texts_sent h = [] \<and>
       map_option written (upstream_request h)
         = Some (if chunks req \<noteq> [] \<and> received \<noteq> [] then Some received else None) \<and>
       map_option (wire_body rt) (upstream_request h)
         = Some (if chunks req \<noteq> [] \<and> received \<noteq> [] then Some (utf8_encode rt received)
                 else None) \<and>
       (chunks req \<noteq> [] \<and> received \<noteq> [] \<and> utf8_encode rt received = concat (chunks req) \<longrightarrow>
          map_option (wire_body rt) (upstream_request h) = Some (Some (concat (chunks req)))) \<and>
       tokensSaved (new_stats h) = tokensSaved st \<and>
       originalTokens (new_stats h) = originalTokens st \<and>
       compressed (new_stats h) = compressed st) \<and>
    ((\<forall>n t. net n t \<noteq> Cut) \<longrightarrow> upstream_request h \<noteq> None \<and> response h \<noteq> None)"
proof (intro conjI impI)
  assume e: "isMessagesEndpoint req \<and> chunks req \<noteq> [] \<and> received \<noteq> []"
  then have e': "isMessagesEndpoint req" "body_present (collect rt req)"
    by (simp_all add: present_collect rc)
  obtain result sent where
    pp: "processPayload rt cfg net [] received = (result, sent)"
    by (cases "processPayload rt cfg net [] received")
  show "texts_sent h = snd (processPayload rt cfg net [] received)"
    using e' pp unfolding h rc
    by (cases result) (simp_all add: handleRequest_eligible handleRequest_stuck)
  show "case fst (processPayload rt cfg net [] received) of
         None \<Rightarrow>
           upstream_request h = None \<and> response h = None \<and>
           tokensSaved (new_stats h) = tokensSaved st \<and>
           originalTokens (new_stats h) = originalTokens st \<and>
           compressed (new_stats h) = compressed st
       | Some result \<Rightarrow>
           map_option written (upstream_request h)
             = Some (if body result \<noteq> [] then Some (body result) else None) \<and>
           tokensSaved (new_stats h) = num_add rt (tokensSaved st) (totalSaved result) \<and>
           originalTokens (new_stats h)
             = prim_plus rt (originalTokens st) (totalOriginal result) \<and>
           compressed (new_stats h)
             = (if num_less (Fin 0) (totalSaved result) then compressed st + 1
                else compressed st)"
    using e' pp unfolding h rc
    by (cases result)
      (simp_all add: handleRequest_eligible handleRequest_stuck written_forward body_present_def)
next
  assume n: "\<not> (isMessagesEndpoint req \<and> chunks req \<noteq> [] \<and> received \<noteq> [])"
  then have n': "\<not> (isMessagesEndpoint req \<and> body_present (collect rt req))"
    by (simp add: present_collect rc)
  have o: "h = \<lparr>new_stats = st\<lparr>requests := requests st + 1\<rparr>,
     texts_sent = [],
     upstream_request = Some (fst (forwardToAnthropic rt cfg up (req_method req) (req_url req)
        (req_headers req) (collect rt req))),
     response = Some (snd (forwardToAnthropic rt cfg up (req_method req) (req_url req)
        (req_headers req) (collect rt req)))\<rparr>"
    unfolding h using n' by (rule handleRequest_other)
  have w: "map_option written (upstream_request h)
      = Some (if chunks req \<noteq> [] \<and> received \<noteq> [] then Some received else None)"
    by (simp add: o written_forward) (simp add: collect_def body_present_def rc)
  show "texts_sent h = []" by (simp add: o)
  show "map_option written (upstream_request h)
      = Some (if chunks req \<noteq> [] \<and> received \<noteq> [] then Some received else None)"
    by (rule w)
  show w': "map_option (wire_body rt) (upstream_request h)
      = Some (if chunks req \<noteq> [] \<and> received \<noteq> [] then Some (utf8_encode rt received)
              else None)"
    using w by (cases "upstream_request h") (auto simp add: wire_body_def split: if_splits)
  show "map_option (wire_body rt) (upstream_request h) = Some (Some (concat (chunks req)))"
    if "chunks req \<noteq> [] \<and> received \<noteq> [] \<and> utf8_encode rt received = concat (chunks req)"
    using w' that by simp
  show "tokensSaved (new_stats h) = tokensSaved st" by (simp add: o)
  show "originalTokens (new_stats h) = originalTokens st" by (simp add: o)
  show "compressed (new_stats h) = compressed st" by (simp add: o)
next
  assume "\<forall>n t. net n t \<noteq> Cut"
  then have "fst (processPayload rt cfg net [] (utf8_decode rt (concat (chunks req)))) \<noteq> None"
    by (rule processPayload_returns)
  then show "upstream_request h \<noteq> None" "response h \<noteq> None"
    unfolding h
    by (auto simp add: handleRequest_def Let_def split: prod.splits option.splits)
qed

lemma response_forward:
  "snd (forwardToAnthropic rt cfg up m p hdrs b) =
    (case up (fst (forwardToAnthropic rt cfg up m p hdrs b)) of
       Responds r \<Rightarrow>
         \<lparr>status = up_status r, headers = up_headers r, content = up_body r, ended = True\<rparr>
     | Fails msg \<Rightarrow> bad_gateway rt msg
     | Breaks r \<Rightarrow>
         \<lparr>status = up_status r, headers = up_headers r, content = up_body r, ended = False\<rparr>)"
  by (simp add: forwardToAnthropic_def Let_def)

lemma handleRequest_response:
  assumes "upstream_request (handleRequest rt cfg net up st req) = Some ob"
  shows "response (handleRequest rt cfg net up st req) =
    Some (case up ob of
       Responds r \<Rightarrow>
         \<lparr>status = up_status r, headers = up_headers r, content = up_body r, ended = True\<rparr>
     | Fails msg \<Rightarrow> bad_gateway rt msg
     | Breaks r \<Rightarrow>
         \<lparr>status = up_status r, headers = up_headers r, content = up_body r, ended = False\<rparr>)"
  using assms response_forward [of rt cfg up]
  by (auto simp add: handleRequest_def Let_def split: prod.splits option.splits if_splits)

text \<open>
  C7, as the code has it.  For a request that is forwarded: when the outbound request
  ends in \<^verbatim>\<open>error\<close>, which is a failure before any response of the upstream, the
  caller receives status 502 with the body \<^verbatim>\<open>{"error":"Bad Gateway","message":...}\<close>,
  the response is ended, and the request has been counted; when the upstream responds and
  its body ends, the caller receives that response, ended.
\<close>

theorem upstream_failure_gives_502:
  assumes h: "h = handleRequest rt cfg net up st req"
    and fw: "upstream_request h = Some ob"
  shows "(up ob = Fails msg \<longrightarrow>
      response h =
        Some \<lparr>status = 502, headers = Map.empty,
          content = utf8_encode rt (json_stringify rt
            (JObj [(''error'', JStr ''Bad Gateway''), (''message'', JStr msg)])),
          ended = True\<rparr> \<and>
      requests (new_stats h) = requests st + 1) \<and>
    (up ob = Responds r \<longrightarrow>
      response h =
        Some \<lparr>status = up_status r, headers = up_headers r, content = up_body r,
          ended = True\<rparr>)"
  using handleRequest_response [of rt cfg net up st req ob] fw
  unfolding h by (simp add: bad_gateway_def handleRequest_requests)

text \<open>
  C8.  Header by header, the outbound header set is the inbound one, except that
  \<^verbatim>\<open>connection\<close>, \<^verbatim>\<open>keep-alive\<close> and \<^verbatim>\<open>transfer-encoding\<close> are absent,
  \<^verbatim>\<open>content-length\<close> is the byte length of the body when a body is present, and
  \<^verbatim>\<open>host\<close> is the upstream host name.  Method and path go out as they came in.
\<close>

theorem forwarded_header_set:
  "out_headers (fst (forwardToAnthropic rt cfg up m p hdrs b)) k =
     (if k \<in> {''connection'', ''keep-alive'', ''transfer-encoding''} then None
      else if k = ''content-length'' \<and> body_present b
        then map_option (\<lambda>s. HNum (byte_length s)) b
      else if k = ''host'' then Some (HStr (anthropicHost cfg))
      else hdrs k) \<and>
   hostname (fst (forwardToAnthropic rt cfg up m p hdrs b)) = anthropicHost cfg \<and>
   http_method (fst (forwardToAnthropic rt cfg up m p hdrs b)) = m \<and>
   path (fst (forwardToAnthropic rt cfg up m p hdrs b)) = p"
  by (cases b) (simp_all add: forwardToAnthropic_def forward_headers_def Let_def body_present_def)

text \<open>Scenario B once more, and the sample requests.\<close>

lemma processPayload_b:
  "processPayload rt_b cfg_default (replies raw_reply_80_200) [] raw_b =
    (Some \<lparr>body = raw_b_short, totalSaved = Fin 120, totalOriginal = PNum (Fin 200)\<rparr>,
     [JStr text500])"
proof -
  have "walk_payload rt_b cfg_default (replies raw_reply_80_200) [] (JObj payload_b) =
      Rewritten (JObj payload_b_short) (Fin 120) (PNum (Fin 200)) [JStr text500]"
    using process_msg_long [OF parse_rt_b(2) parse_rt_b(3), of 0 0 "[]"]
    by (simp add: walk_payload_def payload_b_def payload_b_short_def)
  then show ?thesis
    by (simp add: processPayload_def parse_rt_b) (simp add: rt_b_def rt_sample_def)
qed

lemma raw_b_nonempty: "raw_b \<noteq> []"
  by (simp add: raw_b_def units_def)

lemma raw_b_short_nonempty: "raw_b_short \<noteq> []"
  by (simp add: raw_b_short_def units_def)

lemma codec_rt_b: "utf8_decode rt_b bs = bs" "utf8_encode rt_b us = us"
  by (simp_all add: rt_b_def rt_sample_def)

text \<open>C5 on a request to the messages endpoint (scenario B), on the same request when the
  compression service cuts its response, on a request without a body, and on a
  \<^verbatim>\<open>POST\<close> to another path.\<close>

theorem handleRequest_transforms_iff_eligible_witness:
  "isMessagesEndpoint req_messages \<and> chunks req_messages \<noteq> [] \<and>
   utf8_decode rt_b (concat (chunks req_messages)) = raw_b \<and> raw_b \<noteq> [] \<and>
   new_stats (handleRequest rt_b cfg_default (replies raw_reply_80_200) up_ok stats0 req_messages)
     = \<lparr>requests = 42, compressed = 8, tokensSaved = Fin 1120,
        originalTokens = PNum (Fin 5200)\<rparr> \<and>
   texts_sent (handleRequest rt_b cfg_default (replies raw_reply_80_200) up_ok stats0 req_messages)
     = [JStr text500] \<and>
   map_option written (upstream_request
      (handleRequest rt_b cfg_default (replies raw_reply_80_200) up_ok stats0 req_messages))
     = Some (Some raw_b_short) \<and>
   upstream_request (handleRequest rt_b cfg_default (\<lambda>n t. Cut) up_ok stats0 req_messages)
     = None \<and>
   \<not> isMessagesEndpoint req_models \<and>
   new_stats (handleRequest rt_b cfg_default (replies raw_reply_80_200) up_ok stats0 req_models)
     = \<lparr>requests = 42, compressed = 7, tokensSaved = Fin 1000,
        originalTokens = PNum (Fin 5000)\<rparr> \<and>
   map_option written (upstream_request
      (handleRequest rt_b cfg_default (replies raw_reply_80_200) up_ok stats0 req_models))
     = Some None \<and>
   \<not> isMessagesEndpoint req_other_post \<and>
   texts_sent
      (handleRequest rt_b cfg_default (replies raw_reply_80_200) up_ok stats0 req_other_post)
     = [] \<and>
   map_option (wire_body rt_b) (upstream_request
      (handleRequest rt_b cfg_default (replies raw_reply_80_200) up_ok stats0 req_other_post))
     = Some (Some raw_b) \<and>
   (\<forall>n t. replies raw_reply_80_200 n t \<noteq> Cut)"
proof -
  let ?net = "replies raw_reply_80_200"
  let ?h = "\<lambda>req. handleRequest rt_b cfg_default ?net up_ok stats0 req"
  let ?cut = "handleRequest rt_b cfg_default (\<lambda>n t. Cut) up_ok stats0 req_messages"
  have e: "isMessagesEndpoint req_messages" "chunks req_messages \<noteq> []"
    "utf8_decode rt_b (concat (chunks req_messages)) = raw_b"
    by (simp_all add: isMessagesEndpoint_def req_messages_def codec_rt_b)
  have n1: "\<not> isMessagesEndpoint req_models" "chunks req_models = []"
    by (simp_all add: isMessagesEndpoint_def req_models_def)
  have n2: "\<not> isMessagesEndpoint req_other_post" "chunks req_other_post \<noteq> []"
    "utf8_decode rt_b (concat (chunks req_other_post)) = raw_b"
    by (simp_all add: isMessagesEndpoint_def req_other_post_def codec_rt_b)
  have r: "requests (new_stats (?h req)) = 42" for req
    by (simp add: handleRequest_requests stats0_def)
  have a: "texts_sent (?h req_messages) = [JStr text500] \<and>
      map_option written (upstream_request (?h req_messages)) = Some (Some raw_b_short) \<and>
      tokensSaved (new_stats (?h req_messages)) = Fin 1120 \<and>
      originalTokens (new_stats (?h req_messages)) = PNum (Fin 5200) \<and>
      compressed (new_stats (?h req_messages)) = 8"
    using handleRequest_transforms_iff_eligible [OF refl e(3) [symmetric],
        where cfg = cfg_default and net = ?net and up = up_ok and st = stats0] e(1,2) raw_b_nonempty
    by (simp add: processPayload_b raw_b_short_nonempty stats0_def prim_plus_def parse_rt_b)
  have a': "upstream_request ?cut = None"
    using handleRequest_transforms_iff_eligible [OF refl e(3) [symmetric],
        where cfg = cfg_default and net = "\<lambda>n t. Cut" and up = up_ok and st = stats0]
      e(1,2) raw_b_nonempty
    by (simp add: processPayload_b_cut)
  have b: "texts_sent (?h req_models) = [] \<and>
      map_option written (upstream_request (?h req_models)) = Some None \<and>
      tokensSaved (new_stats (?h req_models)) = Fin 1000 \<and>
      originalTokens (new_stats (?h req_models)) = PNum (Fin 5000) \<and>
      compressed (new_stats (?h req_models)) = 7"
    using handleRequest_transforms_iff_eligible [OF refl refl, of req_models rt_b cfg_default ?net
        up_ok stats0] n1
    by (simp add: stats0_def)
  have c: "texts_sent (?h req_other_post) = [] \<and>
      map_option (wire_body rt_b) (upstream_request (?h req_other_post)) = Some (Some raw_b)"
    using handleRequest_transforms_iff_eligible [OF refl n2(3) [symmetric],
        where cfg = cfg_default and net = ?net and up = up_ok and st = stats0] n2(1,2) raw_b_nonempty
    by (simp add: codec_rt_b)
  have eq: "s = \<lparr>requests = requests s, compressed = compressed s,
      tokensSaved = tokensSaved s, originalTokens = originalTokens s\<rparr>" for s :: stats
    by simp
  show ?thesis
    using e n1 n2 a a' b c r [of req_messages] r [of req_models] raw_b_nonempty
      eq [of "new_stats (?h req_messages)"] eq [of "new_stats (?h req_models)"]
    by (simp add: replies_def)
qed

text \<open>
  C5 as stated forwards the body of every other request exactly as received, and the
  output of the transformer for an eligible one.  The code decodes the received bytes as
  UTF-8 into a string before it looks at the request, and writes that string upstream: a
  body of the one byte \<open>255\<close> goes out as the three bytes \<open>239 191 189\<close>, with a
  \<^verbatim>\<open>content-length\<close> of 3.  And an eligible request is not forwarded at all when the
  response of the compression service is cut after its headers.
\<close>

theorem binary_body_is_reencoded:
  "\<not> isMessagesEndpoint req_binary \<and>
   concat (chunks req_binary) = [255] \<and>
   map_option (wire_body rt_binary) (upstream_request
      (handleRequest rt_binary cfg_default (\<lambda>n t. Timeout) up_ok stats0 req_binary))
     = Some (Some [239, 191, 189]) \<and>
   map_option (\<lambda>ob. out_headers ob ''content-length'') (upstream_request
      (handleRequest rt_binary cfg_default (\<lambda>n t. Timeout) up_ok stats0 req_binary))
     = Some (Some (HNum 3)) \<and>
   isMessagesEndpoint req_messages \<and>
   upstream_request (handleRequest rt_b cfg_default (\<lambda>n t. Cut) up_ok stats0 req_messages)
     = None"
proof -
  have n: "\<not> (isMessagesEndpoint req_binary \<and> body_present (collect rt_binary req_binary))"
    by (simp add: isMessagesEndpoint_def req_binary_def)
  have c: "collect rt_binary req_binary = Some [65533]"
    by (simp add: collect_def req_binary_def rt_binary_def)
  have e: "isMessagesEndpoint req_messages" "body_present (collect rt_b req_messages)"
    "utf8_decode rt_b (concat (chunks req_messages)) = raw_b"
    by (simp_all add: isMessagesEndpoint_def req_messages_def collect_def body_present_def
        codec_rt_b raw_b_nonempty)
  have "upstream_request (handleRequest rt_b cfg_default (\<lambda>n t. Cut) up_ok stats0 req_messages)
     = None"
    using e by (simp add: handleRequest_stuck processPayload_b_cut)
  then show ?thesis
    unfolding handleRequest_other [OF n] c
    by (simp add: forwardToAnthropic_def forward_headers_def Let_def body_present_def
        wire_body_def unit_bytes_def e)
      (simp add: isMessagesEndpoint_def req_binary_def rt_binary_def)
qed

text \<open>C7 on a request whose forwarding is refused, and on one that is answered.\<close>

theorem upstream_failure_gives_502_witness:
  "upstream_request
      (handleRequest rt_gateway cfg_default (\<lambda>n t. Timeout) up_refused stats0 req_models)
     = Some (fst (forwardToAnthropic rt_gateway cfg_default up_refused ''GET'' ''/v1/models''
          headers_in None)) \<and>
   up_refused (fst (forwardToAnthropic rt_gateway cfg_default up_refused ''GET'' ''/v1/models''
          headers_in None))
     = Fails ''connect ECONNREFUSED'' \<and>
   response (handleRequest rt_gateway cfg_default (\<lambda>n t. Timeout) up_refused stats0 req_models)
     = Some \<lparr>status = 502, headers = Map.empty, content = raw_bad_gateway, ended = True\<rparr> \<and>
   requests (new_stats
      (handleRequest rt_gateway cfg_default (\<lambda>n t. Timeout) up_refused stats0 req_models)) = 42 \<and>
   response (handleRequest rt_gateway cfg_default (\<lambda>n t. Timeout) up_ok stats0 req_models)
     = Some \<lparr>status = 200, headers = Map.empty, content = units ''ok'', ended = True\<rparr>"
proof -
  have n: "\<not> (isMessagesEndpoint req_models \<and> body_present (collect rt_gateway req_models))"
    by (simp add: isMessagesEndpoint_def req_models_def)
  have fw: "upstream_request
      (handleRequest rt_gateway cfg_default (\<lambda>n t. Timeout) up stats0 req_models)
     = Some (fst (forwardToAnthropic rt_gateway cfg_default up ''GET'' ''/v1/models''
          headers_in None))" for up
    unfolding handleRequest_other [OF n]
    by (simp add: req_models_def collect_def)
  show ?thesis
    using upstream_failure_gives_502 [OF refl fw, of up_refused "''connect ECONNREFUSED''"]
      upstream_failure_gives_502 [OF refl fw, of up_ok _
        "\<lparr>up_status = 200, up_headers = Map.empty, up_body = units ''ok''\<rparr>"]
      fw [of up_refused]
    by (simp add: up_refused_def up_ok_def rt_gateway_def rt_sample_def stats0_def)
qed

text \<open>When a call to the compression service never settles, the request is counted and
  never forwarded, and the caller receives no response.\<close>

lemma unsettled_compression_leaves_no_response:
  "handleRequest rt_b cfg_default (\<lambda>n t. Cut) up_ok stats0 req_messages =
    \<lparr>new_stats = stats0\<lparr>requests := 42\<rparr>, texts_sent = [JStr text500],
     upstream_request = None, response = None\<rparr>"
proof -
  have "isMessagesEndpoint req_messages" "body_present (collect rt_b req_messages)"
    "utf8_decode rt_b (concat (chunks req_messages)) = raw_b"
    by (simp_all add: isMessagesEndpoint_def req_messages_def collect_def body_present_def
        codec_rt_b raw_b_nonempty)
  then show ?thesis
    by (simp add: handleRequest_stuck processPayload_b_cut stats0_def)
qed

text \<open>
  C7 as stated gives 502 for every failure while the outbound connection is used, and a
  response on every path.  When the upstream has answered 200 and part of its body, and
  the connection then breaks, the status and the part of the body have gone to the
  caller: the caller receives no 502.  The code listens for no event of the upstream's
  response, so the caller's response is not ended either.  And when the response of the
  compression service is cut after its headers, the caller receives no response at all.
\<close>

theorem broken_upstream_gives_no_502:
  "up_broken (fst (forwardToAnthropic rt_gateway cfg_default up_broken ''GET'' ''/v1/models''
          headers_in None))
     = Breaks \<lparr>up_status = 200, up_headers = Map.empty, up_body = partial_body\<rparr> \<and>
   upstream_request
      (handleRequest rt_gateway cfg_default (\<lambda>n t. Timeout) up_broken stats0 req_models)
     = Some (fst (forwardToAnthropic rt_gateway cfg_default up_broken ''GET'' ''/v1/models''
          headers_in None)) \<and>
   response (handleRequest rt_gateway cfg_default (\<lambda>n t. Timeout) up_broken stats0 req_models)
     = Some \<lparr>status = 200, headers = Map.empty, content = partial_body, ended = False\<rparr> \<and>
   response (handleRequest rt_b cfg_default (\<lambda>n t. Cut) up_ok stats0 req_messages) = None"
proof -
  have n: "\<not> (isMessagesEndpoint req_models \<and> body_present (collect rt_gateway req_models))"
    by (simp add: isMessagesEndpoint_def req_models_def)
  show ?thesis
    unfolding handleRequest_other [OF n] unsettled_compression_leaves_no_response
    by (simp add: req_models_def collect_def response_forward up_broken_def)
qed

text \<open>C8 on the sample headers with a body of the two code units 104 and 233 (an h and
  an e with an acute accent), which is three bytes in UTF-8, and without a body.\<close>

theorem forwarded_header_set_witness:
  "map (out_headers (fst (forwardToAnthropic (rt_sample [] []) cfg_default up_ok ''POST''
          ''/v1/messages'' headers_in (Some [104, 233]))))
      [''host'', ''x-api-key'', ''anthropic-version'', ''connection'', ''keep-alive'',
       ''transfer-encoding'', ''content-length'', ''accept'']
     = [Some (HStr ''api.anthropic.com''), Some (HStr ''secret''), Some (HStr ''2023-06-01''),
        None, None, None, Some (HNum 3), None] \<and>
   out_headers (fst (forwardToAnthropic (rt_sample [] []) cfg_default up_ok ''GET''
          ''/v1/models'' headers_in None)) ''content-length'' = Some (HStr ''999'')"
  using forwarded_header_set [of "rt_sample [] []" cfg_default up_ok "''POST''" "''/v1/messages''"
      headers_in "Some [104, 233]"]
    forwarded_header_set [of "rt_sample [] []" cfg_default up_ok "''GET''" "''/v1/models''"
      headers_in None "''content-length''"]
  by (simp add: body_present_def unit_bytes_def high_surrogate_def headers_in_def
      cfg_default_def)

end
